theory Spec2Isabelle
  imports Main "HOL-Library.AList"
begin


section \<open>JavaScript values and built-ins\<close>

text \<open>
  Identifiers are strings. Row indices are JavaScript numbers; the code uses \<open>-1\<close> as
  its sentinel, so they are modelled as \<open>int\<close>.
\<close>

type_synonym RowID = string
type_synonym ColumnID = string
type_synonym Index = int

text \<open>
  Exceptions are values: \<open>TypeError\<close> is what the engine throws on a property access or a
  call through \<open>undefined\<close>, \<open>Error\<close> carries the message of a \<open>throw new Error(...)\<close>
  of the code.
\<close>

datatype error = TypeError | Error string

text \<open>
  A cell holds a string or a number (the code types it \<open>any\<close>). The number type and the
  built-ins on it (IEEE doubles, \<open>parseFloat\<close>, \<open>isNaN\<close>, \<open>Number.prototype.toString\<close>)
  are not code of the repository: they are a parameter of the model, so that every theorem
  below holds for whatever they compute.
\<close>

datatype 'n cell = Str string | Num 'n

record 'n runtime =
  parseFloatString :: "string \<Rightarrow> 'n"
  isNaN :: "'n \<Rightarrow> bool"
  isFinite :: "'n \<Rightarrow> bool"
  numberToString :: "'n \<Rightarrow> string"

text \<open>\<open>parseFloat(value)\<close> converts its argument to a string first.\<close>

fun parseFloat :: "'n runtime \<Rightarrow> 'n cell \<Rightarrow> 'n" where
  "parseFloat rt (Str s) = parseFloatString rt s"
| "parseFloat rt (Num n) = parseFloatString rt (numberToString rt n)"

text \<open>
  \<open>JSON.stringify\<close> on a string: the string in double quotes, with the quote, the
  backslash and the control characters escaped.
\<close>

definition hexDigit :: "nat \<Rightarrow> char" where
  "hexDigit n = ''0123456789abcdef'' ! (n mod 16)"

definition quoteChar :: "char \<Rightarrow> string" where
  "quoteChar c =
     (if c = CHR 0x22 then [CHR 0x5C, CHR 0x22]
      else if c = CHR 0x5C then [CHR 0x5C, CHR 0x5C]
      else if c = CHR 0x08 then [CHR 0x5C, CHR ''b'']
      else if c = CHR 0x0C then [CHR 0x5C, CHR ''f'']
      else if c = CHR 0x0A then [CHR 0x5C, CHR ''n'']
      else if c = CHR 0x0D then [CHR 0x5C, CHR ''r'']
      else if c = CHR 0x09 then [CHR 0x5C, CHR ''t'']
      else if (of_char c :: nat) < 32 then
        [CHR 0x5C, CHR ''u'', CHR ''0'', CHR ''0'',
         hexDigit (of_char c div 16), hexDigit (of_char c)]
      else [c])"

definition QuoteJSONString :: "string \<Rightarrow> string" where
  "QuoteJSONString s = [CHR 0x22] @ concat (map quoteChar s) @ [CHR 0x22]"

text \<open>\<open>JSON.stringify\<close> on a number: \<open>null\<close> unless the number is finite.\<close>

definition stringifyNumber :: "'n runtime \<Rightarrow> 'n \<Rightarrow> string" where
  "stringifyNumber rt n = (if isFinite rt n then numberToString rt n else ''null'')"

fun stringifyCell :: "'n runtime \<Rightarrow> 'n cell \<Rightarrow> string" where
  "stringifyCell rt (Str s) = QuoteJSONString s"
| "stringifyCell rt (Num n) = stringifyNumber rt n"

text \<open>
  A JavaScript \<open>Map\<close> keeps its entries in insertion order: \<open>set\<close> on a key it holds
  replaces the value where the entry stands, \<open>set\<close> on a new key appends. It is an
  association list; \<open>None\<close> is the \<open>undefined\<close> that \<open>get\<close> returns for a missing key.
\<close>

definition Map_has :: "('k \<times> 'v) list \<Rightarrow> 'k \<Rightarrow> bool" where
  "Map_has m k = (map_of m k \<noteq> None)"

definition Map_get :: "('k \<times> 'v) list \<Rightarrow> 'k \<Rightarrow> 'v option" where
  "Map_get m k = map_of m k"

definition Map_set :: "'k \<Rightarrow> 'v \<Rightarrow> ('k \<times> 'v) list \<Rightarrow> ('k \<times> 'v) list" where
  "Map_set k v m = AList.update k v m"

definition Map_delete :: "'k \<Rightarrow> ('k \<times> 'v) list \<Rightarrow> ('k \<times> 'v) list" where
  "Map_delete k m = AList.delete k m"

text \<open>\<open>new Map(iterable)\<close>: the entries are set one after the other.\<close>

definition Map_from :: "('k \<times> 'v) list \<Rightarrow> ('k \<times> 'v) list" where
  "Map_from entries = fold (\<lambda>(k, v) m. Map_set k v m) entries []"

text \<open>
  \<open>Array.prototype.splice(start, deleteCount, ...items)\<close> for integral arguments: a
  negative \<open>start\<close> counts from the end, and \<open>start\<close> and \<open>deleteCount\<close> are clamped to the
  array. The result is the array of removed elements and the array after the call.
\<close>

definition spliceStart :: "Index \<Rightarrow> nat \<Rightarrow> nat" where
  "spliceStart start len =
     (if start < 0 then nat (max (int len + start) 0) else min (nat start) len)"

definition splice :: "Index \<Rightarrow> nat \<Rightarrow> 'a list \<Rightarrow> 'a list \<Rightarrow> 'a list \<times> 'a list" where
  "splice start deleteCount items xs =
     (let actualStart = spliceStart start (length xs);
          actualDeleteCount = min deleteCount (length xs - actualStart)
      in (take actualDeleteCount (drop actualStart xs),
          take actualStart xs @ items @ drop (actualStart + actualDeleteCount) xs))"

section \<open>Cell types (source/common/spreadsheet/type.ts)\<close>

text \<open>The class \<open>Type\<close> has exactly the two static instances.\<close>

datatype Type = Number | Text

text \<open>
  \<open>coerce\<close>: \<open>undefined\<close> for \<open>undefined\<close>; for \<open>Text\<close> the \<open>JSON.stringify\<close> of the value;
  for \<open>Number\<close> the \<open>parseFloat\<close> of the value, or \<open>undefined\<close> when that is \<open>NaN\<close>.
\<close>

definition coerce :: "'n runtime \<Rightarrow> Type \<Rightarrow> 'n cell option \<Rightarrow> 'n cell option" where
  "coerce rt ty val =
     (case val of
        None \<Rightarrow> None
      | Some v \<Rightarrow>
          (case ty of
             Text \<Rightarrow> Some (Str (stringifyCell rt v))
           | Number \<Rightarrow>
               (let result = parseFloat rt v
                in if isNaN rt result then None else Some (Num result))))"

definition typeToString :: "Type \<Rightarrow> string" where
  "typeToString ty = (case ty of Text \<Rightarrow> ''text'' | Number \<Rightarrow> ''number'')"

section \<open>Tables (the class \<open>Table\<close> with \<open>order\<close> and \<open>computeRowMap\<close>)\<close>

text \<open>
  The four public fields. An element of \<open>order\<close> is a row ID or \<open>undefined\<close> (\<open>None\<close>):
  \<open>MoveRow\<close> inserts what \<open>splice(start, 1)[0]\<close> returns, which is \<open>undefined\<close> when the
  \<open>rows\<close> map points outside \<open>order\<close>.
\<close>

record 'n Table =
  cells :: "(RowID \<times> (ColumnID \<times> 'n cell) list) list"
  columns :: "(ColumnID \<times> Type) list"
  rows :: "(RowID option \<times> Index) list"
  order :: "RowID option list"

definition newTable :: "'n Table" where
  "newTable = \<lparr>cells = [], columns = [], rows = [], order = []\<rparr>"

definition rowMap :: "RowID option list \<Rightarrow> (RowID option \<times> Index) list" where
  "rowMap ord =
     fold (\<lambda>(rowID, index) m. Map_set rowID index m) (zip ord (map int [0..<length ord])) []"

definition computeRowMap :: "'n Table \<Rightarrow> 'n Table" where
  "computeRowMap T = T\<lparr>rows := rowMap (order T)\<rparr>"

definition copy :: "'n Table \<Rightarrow> 'n Table" where
  "copy T =
     \<lparr>cells = fold (\<lambda>(rowID, column) m.
                 Map_set rowID (Map_from (case Map_get (cells T) rowID of
                                            None \<Rightarrow> [] | Some c \<Rightarrow> c)) m)
               (cells T) [],
      columns = Map_from (columns T),
      rows = Map_from (rows T),
      order = order T\<rparr>"

subsection \<open>Serialization\<close>

text \<open>
  The object that \<open>serialize\<close> builds and hands to \<open>JSON.stringify\<close>. An object is the
  list of its own properties in the order the engine enumerates them: the keys that are
  array indices (canonical decimal numerals below \<open>2^32 - 1\<close>) in ascending numeric
  order, then the other keys in the order of their creation.
\<close>

datatype 'n json =
    JString string
  | JNumber 'n
  | JArray "'n json list"
  | JObject "(string \<times> 'n json) list"

definition isDigit :: "char \<Rightarrow> bool" where
  "isDigit c = (48 \<le> (of_char c :: nat) \<and> (of_char c :: nat) \<le> 57)"

definition digitsToNat :: "string \<Rightarrow> nat" where
  "digitsToNat s = foldl (\<lambda>a c. 10 * a + (of_char c - 48)) 0 s"

definition isArrayIndex :: "string \<Rightarrow> bool" where
  "isArrayIndex s =
     (s \<noteq> [] \<and> list_all isDigit s \<and> (s = ''0'' \<or> hd s \<noteq> CHR ''0'')
      \<and> digitsToNat s < 4294967295)"

definition propertyOrder :: "(string \<times> 'v) list \<Rightarrow> (string \<times> 'v) list" where
  "propertyOrder props =
     sort_key (\<lambda>p. digitsToNat (fst p)) (filter (\<lambda>p. isArrayIndex (fst p)) props)
     @ filter (\<lambda>p. \<not> isArrayIndex (fst p)) props"

text \<open>
  \<open>Object.assign({}, ...sources)\<close>, each source an object \<open>{ [columnID]: cell }\<close> with
  one own property. \<open>Object.assign\<close> stores with an ordinary property write on the target:
  the key \<open>__proto__\<close> reaches the setter inherited from \<open>Object.prototype\<close>, which ignores
  a string or a number, so that no own property is created for it.
\<close>

definition assignProperty :: "string \<Rightarrow> 'v \<Rightarrow> (string \<times> 'v) list \<Rightarrow> (string \<times> 'v) list" where
  "assignProperty k v obj = (if k = ''__proto__'' then obj else Map_set k v obj)"

definition Object_assign :: "(string \<times> 'v) list \<Rightarrow> (string \<times> 'v) list" where
  "Object_assign sources = propertyOrder (fold (\<lambda>(k, v) obj. assignProperty k v obj) sources [])"

fun joinWith :: "string \<Rightarrow> string list \<Rightarrow> string" where
  "joinWith sep [] = []"
| "joinWith sep [x] = x"
| "joinWith sep (x # y # ys) = x @ sep @ joinWith sep (y # ys)"

text \<open>\<open>JSON.stringify(objectJSON, null, 0)\<close>: no white space is inserted.\<close>

fun JSON_stringify :: "'n runtime \<Rightarrow> 'n json \<Rightarrow> string" where
  "JSON_stringify rt (JString s) = QuoteJSONString s"
| "JSON_stringify rt (JNumber n) = stringifyNumber rt n"
| "JSON_stringify rt (JArray xs) = ''['' @ joinWith '','' (map (JSON_stringify rt) xs) @ '']''"
| "JSON_stringify rt (JObject props) =
     ''{'' @ joinWith '',''
              (map (\<lambda>p. QuoteJSONString (fst p) @ '':'' @ JSON_stringify rt (snd p)) props)
     @ ''}''"

definition ColumnOutput :: "ColumnID \<Rightarrow> string \<Rightarrow> 'n json" where
  "ColumnOutput columnID ty = JObject [(''id'', JString columnID), (''type'', JString ty)]"

definition RowOutput :: "RowID \<Rightarrow> 'n json \<Rightarrow> 'n json" where
  "RowOutput rowID cellValuesByColumnId =
     JObject [(''id'', JString rowID), (''cellValuesByColumnId'', cellValuesByColumnId)]"

fun cellJSON :: "'n cell \<Rightarrow> 'n json" where
  "cellJSON (Str s) = JString s"
| "cellJSON (Num n) = JNumber n"

definition cellValuesByColumnId :: "(ColumnID \<times> 'n cell) list \<Rightarrow> 'n json" where
  "cellValuesByColumnId column =
     JObject (Object_assign (map (\<lambda>(columnID, cell). (columnID, cellJSON cell)) column))"

text \<open>
  One iteration of \<open>this.order.forEach\<close>: \<open>this.cells.get(rowID)\<close> is cast to a map, and
  \<open>Array.from\<close> throws on \<open>undefined\<close>.
\<close>

definition serializeRow :: "'n Table \<Rightarrow> RowID option \<Rightarrow> error + 'n json" where
  "serializeRow T rowID =
     (case rowID of
        None \<Rightarrow> Inl TypeError
      | Some r \<Rightarrow>
          (case Map_get (cells T) r of
             None \<Rightarrow> Inl TypeError
           | Some column \<Rightarrow> Inr (RowOutput r (cellValuesByColumnId column))))"

fun serializeRows :: "'n Table \<Rightarrow> RowID option list \<Rightarrow> error + 'n json list" where
  "serializeRows T [] = Inr []"
| "serializeRows T (rowID # rest) =
     (case serializeRow T rowID of
        Inl e \<Rightarrow> Inl e
      | Inr r \<Rightarrow>
          (case serializeRows T rest of
             Inl e \<Rightarrow> Inl e
           | Inr rs \<Rightarrow> Inr (r # rs)))"

definition serializeColumns :: "'n Table \<Rightarrow> 'n json list" where
  "serializeColumns T =
     map (\<lambda>(columnID, ty). ColumnOutput columnID (typeToString ty)) (columns T)"

definition objectJSON :: "'n Table \<Rightarrow> error + 'n json" where
  "objectJSON T =
     (case serializeRows T (order T) of
        Inl e \<Rightarrow> Inl e
      | Inr rs \<Rightarrow>
          Inr (JObject [(''columns'', JArray (serializeColumns T)), (''rows'', JArray rs)]))"

definition serialize :: "'n runtime \<Rightarrow> 'n Table \<Rightarrow> error + string" where
  "serialize rt T =
     (case objectJSON T of
        Inl e \<Rightarrow> Inl e
      | Inr objJSON \<Rightarrow> Inr (JSON_stringify rt objJSON))"

section \<open>Shift contexts (source/common/editor/shiftContext.ts)\<close>

datatype ShiftType = Insert | Delete

datatype ShiftRecord = ShiftRecord (shiftType: ShiftType) (shiftIndex: Index)

text \<open>The private field \<open>shifts\<close> is the whole state of a \<open>ShiftContext\<close>.\<close>

type_synonym ShiftContext = "ShiftRecord list"

definition newShiftContext :: ShiftContext where
  "newShiftContext = []"

definition insertAt :: "Index \<Rightarrow> ShiftContext \<Rightarrow> ShiftContext" where
  "insertAt idx shifts = shifts @ [ShiftRecord Insert idx]"

definition deleteAt :: "Index \<Rightarrow> ShiftContext \<Rightarrow> ShiftContext" where
  "deleteAt idx shifts = shifts @ [ShiftRecord Delete idx]"

definition move :: "Index \<Rightarrow> Index \<Rightarrow> ShiftContext \<Rightarrow> ShiftContext" where
  "move start end shifts = shifts @ [ShiftRecord Delete start] @ [ShiftRecord Insert end]"

text \<open>
  The body of the callback that \<open>transform\<close> hands to \<open>Array.forEach\<close>. The callback
  closes over \<open>index\<close> and assigns to it; \<open>return -1\<close> is a return of the callback, whose
  result \<open>forEach\<close> discards, so that branch leaves \<open>index\<close> as it is and the iteration
  goes on with the next record.
\<close>

definition transformStep :: "ShiftRecord \<Rightarrow> Index \<Rightarrow> Index" where
  "transformStep shift idx =
     (if shiftType shift = Insert then idx + (if idx \<ge> shiftIndex shift then 1 else 0)
      else if shiftType shift = Delete then
        (if idx = shiftIndex shift then idx
         else idx - (if idx > shiftIndex shift then 1 else 0))
      else idx)"

definition transform :: "ShiftContext \<Rightarrow> Index \<Rightarrow> Index" where
  "transform shifts idx = fold transformStep shifts idx"

text \<open>The value the documentation of \<open>transform\<close> reserves for a deleted index.\<close>

definition Tombstone :: Index where
  "Tombstone = -1"

section \<open>Table updates (the abstract class \<open>TableUpdate\<close> and its eight subclasses)\<close>

text \<open>
  One constructor per subclass, with the constructor arguments and the private bookkeeping
  field of the class: \<open>DestroyRow rowID index\<close> and \<open>MoveRow rowID targetIndex start\<close>,
  where \<open>index\<close> and \<open>start\<close> are \<open>-1\<close> until \<open>apply\<close> sets them.
\<close>

datatype 'n TableUpdate =
    CreateRow RowID
  | DestroyRow RowID Index
  | MoveRow RowID Index Index
  | CreateColumn ColumnID Type
  | DestroyColumn ColumnID
  | UpdateColumnType ColumnID Type
  | UpdateTextCellValue RowID ColumnID string
  | UpdateNumberCellValue RowID ColumnID 'n

text \<open>
  \<open>needsTransform\<close> is defined once, in the abstract class, and returns \<open>false\<close>; no
  subclass overrides it (\<open>MoveRow\<close> overrides \<open>transform\<close>, \<open>apply\<close> and \<open>shift\<close> only).
\<close>

definition needsTransform :: "'n TableUpdate \<Rightarrow> bool" where
  "needsTransform u = False"

fun transformUpdate :: "ShiftContext \<Rightarrow> 'n TableUpdate \<Rightarrow> 'n TableUpdate" where
  "transformUpdate ctx (MoveRow rowID targetIndex start) =
     MoveRow rowID (transform ctx targetIndex) start"
| "transformUpdate ctx u = u"

fun shift :: "'n TableUpdate \<Rightarrow> ShiftContext \<Rightarrow> error + ShiftContext" where
  "shift (DestroyRow rowID index) ctx =
     (if index = -1 then Inl (Error ''shift called before apply'')
      else Inr (deleteAt index ctx))"
| "shift (MoveRow rowID targetIndex start) ctx =
     (if start = -1 then Inl (Error ''shift called before apply'')
      else Inr (move start targetIndex ctx))"
| "shift u ctx = Inr ctx"

text \<open>
  \<open>apply\<close> mutates the table and the update object and returns a boolean, or throws: the
  result is the exception, or the boolean with the update and the table after the call.
\<close>

type_synonym 'n applied = "error + bool \<times> 'n TableUpdate \<times> 'n Table"

definition CreateRow_apply :: "RowID \<Rightarrow> 'n Table \<Rightarrow> 'n applied" where
  "CreateRow_apply rowID T =
     (if Map_has (rows T) (Some rowID) then Inr (False, CreateRow rowID, T)
      else
        let T1 = T\<lparr>cells := Map_set rowID [] (cells T)\<rparr>;
            T2 = T1\<lparr>order := order T1 @ [Some rowID]\<rparr>
        in Inr (True, CreateRow rowID, computeRowMap T2))"

definition DestroyRow_apply :: "RowID \<Rightarrow> Index \<Rightarrow> 'n Table \<Rightarrow> 'n applied" where
  "DestroyRow_apply rowID index T =
     (case Map_get (rows T) (Some rowID) of
        None \<Rightarrow> Inr (False, DestroyRow rowID index, T)
      | Some index' \<Rightarrow>
          let T1 = T\<lparr>cells := Map_delete rowID (cells T)\<rparr>;
              T2 = T1\<lparr>order := snd (splice index' 1 [] (order T1))\<rparr>
          in Inr (True, DestroyRow rowID index', computeRowMap T2))"

text \<open>
  \<open>splice(start, 1)[0]\<close> is the removed element, or \<open>undefined\<close> when nothing was removed.
\<close>

definition MoveRow_apply :: "RowID \<Rightarrow> Index \<Rightarrow> Index \<Rightarrow> 'n Table \<Rightarrow> 'n applied" where
  "MoveRow_apply rowID targetIndex start T =
     (case Map_get (rows T) (Some rowID) of
        None \<Rightarrow> Inr (False, MoveRow rowID targetIndex start, T)
      | Some start' \<Rightarrow>
          let removed = splice start' 1 [] (order T);
              rowID' = (case fst removed of [] \<Rightarrow> None | r # _ \<Rightarrow> r);
              T1 = T\<lparr>order := snd (splice targetIndex 0 [rowID'] (snd removed))\<rparr>
          in Inr (True, MoveRow rowID targetIndex start', computeRowMap T1))"

definition CreateColumn_apply :: "ColumnID \<Rightarrow> Type \<Rightarrow> 'n Table \<Rightarrow> 'n applied" where
  "CreateColumn_apply columnID columnType T =
     (if Map_has (columns T) columnID then Inr (False, CreateColumn columnID columnType, T)
      else Inr (True, CreateColumn columnID columnType,
                T\<lparr>columns := Map_set columnID columnType (columns T)\<rparr>))"

definition DestroyColumn_apply :: "ColumnID \<Rightarrow> 'n Table \<Rightarrow> 'n applied" where
  "DestroyColumn_apply columnID T =
     (if \<not> Map_has (columns T) columnID then Inr (False, DestroyColumn columnID, T)
      else
        let T1 = T\<lparr>columns := Map_delete columnID (columns T)\<rparr>
        in Inr (True, DestroyColumn columnID,
                T1\<lparr>cells := map (\<lambda>(rowID, cols). (rowID, Map_delete columnID cols)) (cells T1)\<rparr>))"

text \<open>
  The first \<open>forEach\<close> of \<open>UpdateColumnType.apply\<close> clears \<open>canCoerce\<close> at every row whose
  cell does not coerce; the cell of a row with no value in the column is \<open>undefined\<close>. The
  second \<open>forEach\<close> runs only when every coercion is defined and stores it. \<open>table.columns\<close>
  is read (\<open>has\<close>) and not written.
\<close>

definition canCoerce :: "'n runtime \<Rightarrow> ColumnID \<Rightarrow> Type \<Rightarrow> 'n Table \<Rightarrow> bool" where
  "canCoerce rt columnID columnType T =
     list_all (\<lambda>(rowID, cols). coerce rt columnType (Map_get cols columnID) \<noteq> None) (cells T)"

definition coerceRow ::
  "'n runtime \<Rightarrow> ColumnID \<Rightarrow> Type \<Rightarrow> (ColumnID \<times> 'n cell) list \<Rightarrow> (ColumnID \<times> 'n cell) list" where
  "coerceRow rt columnID columnType cols =
     (case coerce rt columnType (Map_get cols columnID) of
        None \<Rightarrow> cols
      | Some v \<Rightarrow> Map_set columnID v cols)"

definition UpdateColumnType_apply ::
  "'n runtime \<Rightarrow> ColumnID \<Rightarrow> Type \<Rightarrow> 'n Table \<Rightarrow> 'n applied" where
  "UpdateColumnType_apply rt columnID columnType T =
     (if \<not> Map_has (columns T) columnID then Inr (False, UpdateColumnType columnID columnType, T)
      else if \<not> canCoerce rt columnID columnType T
        then Inr (False, UpdateColumnType columnID columnType, T)
      else Inr (True, UpdateColumnType columnID columnType,
                T\<lparr>cells := map (\<lambda>(rowID, cols). (rowID, coerceRow rt columnID columnType cols))
                              (cells T)\<rparr>))"

text \<open>
  The two cell updates differ in the type they require and the value they store.
  \<open>table.cells.get(rowID)\<close> is cast to a map and written through; on \<open>undefined\<close> the
  method call throws.
\<close>

definition setCell ::
  "'n TableUpdate \<Rightarrow> Type \<Rightarrow> RowID \<Rightarrow> ColumnID \<Rightarrow> 'n cell \<Rightarrow> 'n Table \<Rightarrow> 'n applied" where
  "setCell u required rowID columnID cellValue T =
     (case Map_get (columns T) columnID of
        None \<Rightarrow> Inr (False, u, T)
      | Some ty \<Rightarrow>
          (case Map_get (rows T) (Some rowID) of
             None \<Rightarrow> Inr (False, u, T)
           | Some index \<Rightarrow>
               if ty \<noteq> required then Inr (False, u, T)
               else
                 (case Map_get (cells T) rowID of
                    None \<Rightarrow> Inl TypeError
                  | Some rowColumns \<Rightarrow>
                      Inr (True, u,
                           T\<lparr>cells := Map_set rowID (Map_set columnID cellValue rowColumns)
                                          (cells T)\<rparr>))))"

definition UpdateTextCellValue_apply ::
  "RowID \<Rightarrow> ColumnID \<Rightarrow> string \<Rightarrow> 'n Table \<Rightarrow> 'n applied" where
  "UpdateTextCellValue_apply rowID columnID cellValue T =
     setCell (UpdateTextCellValue rowID columnID cellValue) Text rowID columnID (Str cellValue) T"

definition UpdateNumberCellValue_apply ::
  "RowID \<Rightarrow> ColumnID \<Rightarrow> 'n \<Rightarrow> 'n Table \<Rightarrow> 'n applied" where
  "UpdateNumberCellValue_apply rowID columnID cellValue T =
     setCell (UpdateNumberCellValue rowID columnID cellValue) Number rowID columnID
       (Num cellValue) T"

text \<open>The dynamic dispatch of \<open>update.apply(table)\<close>.\<close>

fun applyUpdate :: "'n runtime \<Rightarrow> 'n TableUpdate \<Rightarrow> 'n Table \<Rightarrow> 'n applied" where
  "applyUpdate rt (CreateRow rowID) T = CreateRow_apply rowID T"
| "applyUpdate rt (DestroyRow rowID index) T = DestroyRow_apply rowID index T"
| "applyUpdate rt (MoveRow rowID targetIndex start) T = MoveRow_apply rowID targetIndex start T"
| "applyUpdate rt (CreateColumn columnID columnType) T = CreateColumn_apply columnID columnType T"
| "applyUpdate rt (DestroyColumn columnID) T = DestroyColumn_apply columnID T"
| "applyUpdate rt (UpdateColumnType columnID columnType) T =
     UpdateColumnType_apply rt columnID columnType T"
| "applyUpdate rt (UpdateTextCellValue rowID columnID cellValue) T =
     UpdateTextCellValue_apply rowID columnID cellValue T"
| "applyUpdate rt (UpdateNumberCellValue rowID columnID cellValue) T =
     UpdateNumberCellValue_apply rowID columnID cellValue T"

section \<open>Messages (source/common/editor/message.ts)\<close>

text \<open>
  \<open>UUIDV4()\<close> yields a fresh identifier at every call: identifiers are numbers drawn from a
  counter that the state of the whole system carries.
\<close>

type_synonym MessageID = nat
type_synonym GroupID = nat
type_synonym Version = nat

record 'n Message =
  version :: Version
  groupID :: GroupID
  update :: "'n TableUpdate"
  UUID :: MessageID

section \<open>The server and the clients (source/server.ts, source/client.ts)\<close>

text \<open>
  A client object is addressed by its position in the list of all client objects. The
  server's \<open>history\<close> is a JavaScript array written at the indices \<open>1, 2, ...\<close>: a partial
  map from indices, \<open>undefined\<close> (\<open>None\<close>) where nothing was stored. The sets \<open>failed\<close> and
  \<open>clients\<close> are a set and, since \<open>forEach\<close> visits the clients in insertion order, a list.
  Messages and tables are passed by value. In the code the message that the server
  announces is the object it keeps in \<open>history\<close>, and \<open>apply\<close> on a client writes its
  bookkeeping into that object; a client applies it to a copy of the table that the server
  applied it to, and so writes what the server wrote.
\<close>

type_synonym ClientID = nat

record 'n Client =
  clientTable :: "'n Table"
  outbox :: "'n Message list"
  clientGroupID :: GroupID
  clientVersion :: Version
  online :: bool

record 'n Server =
  serverTable :: "'n Table"
  history :: "Version \<rightharpoonup> 'n Message"
  pending :: "'n Message list"
  failed :: "GroupID set"
  clients :: "ClientID list"
  serverVersion :: Version
  delay :: nat

record 'n world =
  server :: "'n Server"
  clientObjects :: "'n Client list"
  nextUUID :: nat

text \<open>
  A method call ends normally (\<open>None\<close>) or with an exception, and leaves the state it has
  reached either way.
\<close>

type_synonym 'n outcome = "error option \<times> 'n world"

definition newServer :: "nat \<Rightarrow> 'n Server" where
  "newServer d =
     \<lparr>serverTable = newTable, history = Map.empty, pending = [], failed = {}, clients = [],
      serverVersion = 0, delay = d\<rparr>"

definition newWorld :: "nat \<Rightarrow> 'n world" where
  "newWorld d = \<lparr>server = newServer d, clientObjects = [], nextUUID = 0\<rparr>"

definition getClient :: "'n world \<Rightarrow> ClientID \<Rightarrow> 'n Client" where
  "getClient w cid = clientObjects w ! cid"

definition setClient :: "ClientID \<Rightarrow> 'n Client \<Rightarrow> 'n world \<Rightarrow> 'n world" where
  "setClient cid c w = w\<lparr>clientObjects := (clientObjects w)[cid := c]\<rparr>"

subsection \<open>Callbacks of the server on a client\<close>

definition sync :: "ClientID \<Rightarrow> 'n Table \<Rightarrow> Version \<Rightarrow> 'n world \<Rightarrow> 'n world" where
  "sync cid tbl v w =
     (let c = getClient w cid;
          newer = (v > clientVersion c);
          c1 = (if newer then c\<lparr>clientGroupID := nextUUID w\<rparr> else c);
          w1 = (if newer then w\<lparr>nextUUID := Suc (nextUUID w)\<rparr> else w)
      in setClient cid (c1\<lparr>clientVersion := v, clientTable := tbl\<rparr>) w1)"

definition accepted :: "'n runtime \<Rightarrow> ClientID \<Rightarrow> 'n Message \<Rightarrow> 'n world \<Rightarrow> 'n outcome" where
  "accepted rt cid message w =
     (let c = getClient w cid in
      if version message \<noteq> clientVersion c + 1 then (Some (Error ''unexpected version''), w)
      else
        (case applyUpdate rt (update message) (clientTable c) of
           Inl e \<Rightarrow> (Some e, w)
         | Inr (success, u, tbl) \<Rightarrow>
             (None,
              setClient cid
                (c\<lparr>clientTable := tbl, clientVersion := version message,
                   clientGroupID := nextUUID w\<rparr>)
                (w\<lparr>nextUUID := Suc (nextUUID w)\<rparr>))))"

subsection \<open>The server\<close>

definition connected :: "ClientID \<Rightarrow> 'n world \<Rightarrow> 'n world" where
  "connected cid w =
     (let srv = server w;
          w1 = w\<lparr>server := srv\<lparr>clients := (if cid \<in> set (clients srv) then clients srv
                                              else clients srv @ [cid])\<rparr>\<rparr>
      in sync cid (copy (serverTable srv)) (serverVersion srv) w1)"

definition disconnected :: "ClientID \<Rightarrow> 'n world \<Rightarrow> 'n world" where
  "disconnected cid w =
     w\<lparr>server := (server w)\<lparr>clients := removeAll cid (clients (server w))\<rparr>\<rparr>"

text \<open>\<open>accept\<close>: \<open>this.clients.forEach((client) => client.accepted(message))\<close>.\<close>

fun acceptEach :: "'n runtime \<Rightarrow> 'n Message \<Rightarrow> ClientID list \<Rightarrow> 'n world \<Rightarrow> 'n outcome" where
  "acceptEach rt message [] w = (None, w)"
| "acceptEach rt message (cid # cids) w =
     (case accepted rt cid message w of
        (Some e, w') \<Rightarrow> (Some e, w')
      | (None, w') \<Rightarrow> acceptEach rt message cids w')"

definition accept :: "'n runtime \<Rightarrow> 'n Message \<Rightarrow> 'n world \<Rightarrow> 'n outcome" where
  "accept rt message w = acceptEach rt message (clients (server w)) w"

text \<open>
  \<open>reject\<close>: \<open>this.clients.forEach((client) => client.rejected(messageID, groupID))\<close>.
  The class \<open>Client\<close> has no member \<open>rejected\<close>: for the first client of the set the call
  goes through \<open>undefined\<close> and throws.
\<close>

definition reject :: "MessageID \<Rightarrow> GroupID \<Rightarrow> 'n world \<Rightarrow> 'n outcome" where
  "reject messageID gid w =
     (case clients (server w) of
        [] \<Rightarrow> (None, w)
      | cid # cids \<Rightarrow> (Some TypeError, w))"

text \<open>
  The loop of \<open>process\<close> that accumulates the shift context:
  \<open>for (let i = message.version; i <= this.version; i += 1)\<close>, here over the list of the
  values that \<open>i\<close> takes; \<open>this.history[i].update\<close> throws where \<open>history[i]\<close> is
  \<open>undefined\<close>.
\<close>

fun accumulate ::
  "(Version \<rightharpoonup> 'n Message) \<Rightarrow> Version list \<Rightarrow> ShiftContext \<Rightarrow> error + ShiftContext" where
  "accumulate hist [] ctx = Inr ctx"
| "accumulate hist (i # rest) ctx =
     (case hist i of
        None \<Rightarrow> Inl TypeError
      | Some m \<Rightarrow>
          (case shift (update m) ctx of
             Inl e \<Rightarrow> Inl e
           | Inr ctx' \<Rightarrow> accumulate hist rest ctx'))"

text \<open>The body of \<open>if (message.update.needsTransform())\<close>.\<close>

definition transformMessage :: "'n Server \<Rightarrow> 'n Message \<Rightarrow> error + 'n Message" where
  "transformMessage srv message =
     (case accumulate (history srv) [version message ..< Suc (serverVersion srv)]
             newShiftContext of
        Inl e \<Rightarrow> Inl e
      | Inr shiftContext \<Rightarrow>
          Inr (message\<lparr>update := transformUpdate shiftContext (update message)\<rparr>))"

text \<open>One iteration of the loop of \<open>process\<close>, for the message just dequeued.\<close>

definition processMessage :: "'n runtime \<Rightarrow> 'n Message \<Rightarrow> 'n world \<Rightarrow> 'n outcome" where
  "processMessage rt message w =
     (let srv = server w in
      if groupID message \<in> failed srv then (None, w)
      else
        (case (if needsTransform (update message) then transformMessage srv message
               else Inr message) of
           Inl e \<Rightarrow> (Some e, w)
         | Inr message1 \<Rightarrow>
             (case applyUpdate rt (update message1) (serverTable srv) of
                Inl e \<Rightarrow> (Some e, w)
              | Inr (success, u, tbl) \<Rightarrow>
                  if success then
                    let v = serverVersion srv + 1;
                        message2 = message1\<lparr>update := u, version := v\<rparr>
                    in accept rt message2
                         (w\<lparr>server := srv\<lparr>serverTable := tbl, serverVersion := v,
                                           history := (history srv)(v \<mapsto> message2)\<rparr>\<rparr>)
                  else
                    reject (UUID message1) (groupID message1)
                      (w\<lparr>server := srv\<lparr>serverTable := tbl,
                                        failed := insert (groupID message1) (failed srv)\<rparr>\<rparr>))))"

text \<open>
  The callbacks on the clients leave the server object alone, so that an iteration of
  \<open>process\<close> does not touch the queue it is draining.
\<close>

lemma server_setClient: "server (setClient cid c w) = server w"
  by (simp add: setClient_def)

lemma server_accepted: "server (snd (accepted rt cid message w)) = server w"
  by (simp add: accepted_def Let_def server_setClient split: sum.splits prod.splits)

lemma server_acceptEach: "server (snd (acceptEach rt message cids w)) = server w"
proof (induction cids arbitrary: w)
  case Nil
  show ?case by simp
next
  case (Cons cid cids)
  obtain r w' where a: "accepted rt cid message w = (r, w')"
    by (cases "accepted rt cid message w")
  have "server w' = server w"
    using server_accepted [of rt cid message w] a by simp
  with Cons.IH [of w'] a show ?case
    by (cases r) simp_all
qed

lemma server_reject: "server (snd (reject messageID gid w)) = server w"
  by (simp add: reject_def split: list.splits)

lemma pending_processMessage:
  "pending (server (snd (processMessage rt message w))) = pending (server w)"
  by (simp add: processMessage_def Let_def accept_def server_acceptEach server_reject
      split: sum.splits prod.splits)

lemma pending_after_processMessage:
  assumes "(r, y) = processMessage rt message (w\<lparr>server := (server w)\<lparr>pending := rest\<rparr>\<rparr>)"
  shows "pending (server y) = rest"
proof -
  have "snd (processMessage rt message (w\<lparr>server := (server w)\<lparr>pending := rest\<rparr>\<rparr>)) = y"
    using assms by (metis snd_conv)
  then show ?thesis
    using pending_processMessage [of rt message "w\<lparr>server := (server w)\<lparr>pending := rest\<rparr>\<rparr>"]
    by simp
qed

text \<open>\<open>process\<close>: \<open>while (!this.pending.isEmpty()) { const message = this.pending.dequeue() ... }\<close>.\<close>

function process :: "'n runtime \<Rightarrow> 'n world \<Rightarrow> 'n outcome" where
  "process rt w =
     (case pending (server w) of
        [] \<Rightarrow> (None, w)
      | message # rest \<Rightarrow>
          (case processMessage rt message (w\<lparr>server := (server w)\<lparr>pending := rest\<rparr>\<rparr>) of
             (Some e, w') \<Rightarrow> (Some e, w')
           | (None, w') \<Rightarrow> process rt w'))"
  by pat_completeness auto
termination
  apply (relation "measure (\<lambda>(rt, w). length (pending (server w)))")
   apply simp
  apply (auto dest: pending_after_processMessage)
  done

declare process.simps [simp del]

definition receive :: "'n runtime \<Rightarrow> 'n Message \<Rightarrow> 'n world \<Rightarrow> 'n outcome" where
  "receive rt message w =
     (let w1 = w\<lparr>server := (server w)\<lparr>pending := pending (server w) @ [message]\<rparr>\<rparr>
      in if delay (server w1) = 0 then process rt w1 else (None, w1))"

definition serverGetData :: "'n runtime \<Rightarrow> 'n world \<Rightarrow> error + string" where
  "serverGetData rt w = serialize rt (serverTable (server w))"

subsection \<open>The client\<close>

text \<open>\<open>send\<close>: to the server when online, into the outbox otherwise.\<close>

definition send :: "'n runtime \<Rightarrow> ClientID \<Rightarrow> 'n Message \<Rightarrow> 'n world \<Rightarrow> 'n outcome" where
  "send rt cid message w =
     (let c = getClient w cid in
      if online c then receive rt message w
      else (None, setClient cid (c\<lparr>outbox := outbox c @ [message]\<rparr>) w))"

text \<open>
  What the eight editing methods share:
  \<open>new Message(this.version, this.groupID, update)\<close>, whose \<open>UUID\<close> defaults to a fresh
  one, then \<open>this.send(message)\<close>.
\<close>

definition issue :: "'n runtime \<Rightarrow> ClientID \<Rightarrow> 'n TableUpdate \<Rightarrow> 'n world \<Rightarrow> 'n outcome" where
  "issue rt cid u w =
     (let c = getClient w cid;
          message = \<lparr>version = clientVersion c, groupID = clientGroupID c, update = u,
                     UUID = nextUUID w\<rparr>
      in send rt cid message (w\<lparr>nextUUID := Suc (nextUUID w)\<rparr>))"

definition createRow :: "'n runtime \<Rightarrow> ClientID \<Rightarrow> RowID \<Rightarrow> 'n world \<Rightarrow> 'n outcome" where
  "createRow rt cid rowID w = issue rt cid (CreateRow rowID) w"

definition destroyRow :: "'n runtime \<Rightarrow> ClientID \<Rightarrow> RowID \<Rightarrow> 'n world \<Rightarrow> 'n outcome" where
  "destroyRow rt cid rowID w = issue rt cid (DestroyRow rowID (-1)) w"

definition moveRow :: "'n runtime \<Rightarrow> ClientID \<Rightarrow> RowID \<Rightarrow> Index \<Rightarrow> 'n world \<Rightarrow> 'n outcome" where
  "moveRow rt cid rowID targetIndex w = issue rt cid (MoveRow rowID targetIndex (-1)) w"

definition createColumn ::
  "'n runtime \<Rightarrow> ClientID \<Rightarrow> ColumnID \<Rightarrow> Type \<Rightarrow> 'n world \<Rightarrow> 'n outcome" where
  "createColumn rt cid columnID columnType w = issue rt cid (CreateColumn columnID columnType) w"

definition destroyColumn :: "'n runtime \<Rightarrow> ClientID \<Rightarrow> ColumnID \<Rightarrow> 'n world \<Rightarrow> 'n outcome" where
  "destroyColumn rt cid columnID w = issue rt cid (DestroyColumn columnID) w"

definition updateColumnType ::
  "'n runtime \<Rightarrow> ClientID \<Rightarrow> ColumnID \<Rightarrow> Type \<Rightarrow> 'n world \<Rightarrow> 'n outcome" where
  "updateColumnType rt cid columnID columnType w =
     issue rt cid (UpdateColumnType columnID columnType) w"

definition updateTextCellValue ::
  "'n runtime \<Rightarrow> ClientID \<Rightarrow> RowID \<Rightarrow> ColumnID \<Rightarrow> string \<Rightarrow> 'n world \<Rightarrow> 'n outcome" where
  "updateTextCellValue rt cid rowID columnID val w =
     issue rt cid (UpdateTextCellValue rowID columnID val) w"

definition updateNumberCellValue ::
  "'n runtime \<Rightarrow> ClientID \<Rightarrow> RowID \<Rightarrow> ColumnID \<Rightarrow> 'n \<Rightarrow> 'n world \<Rightarrow> 'n outcome" where
  "updateNumberCellValue rt cid rowID columnID val w =
     issue rt cid (UpdateNumberCellValue rowID columnID val) w"

text \<open>\<open>comeOnline\<close>; \<open>this.outbox.forEach(item => this.server.receive(item))\<close> is \<open>sendEach\<close>.\<close>

fun sendEach :: "'n runtime \<Rightarrow> 'n Message list \<Rightarrow> 'n world \<Rightarrow> 'n outcome" where
  "sendEach rt [] w = (None, w)"
| "sendEach rt (item # items) w =
     (case receive rt item w of
        (Some e, w') \<Rightarrow> (Some e, w')
      | (None, w') \<Rightarrow> sendEach rt items w')"

definition comeOnline :: "'n runtime \<Rightarrow> ClientID \<Rightarrow> 'n world \<Rightarrow> 'n outcome" where
  "comeOnline rt cid w =
     (let w1 = connected cid w in
      case sendEach rt (outbox (getClient w1 cid)) w1 of
        (Some e, w2) \<Rightarrow> (Some e, w2)
      | (None, w2) \<Rightarrow>
          (None, setClient cid ((getClient w2 cid)\<lparr>outbox := [], online := True\<rparr>) w2))"

definition goOffline :: "ClientID \<Rightarrow> 'n world \<Rightarrow> 'n world" where
  "goOffline cid w =
     (let w1 = disconnected cid w
      in setClient cid ((getClient w1 cid)\<lparr>online := False\<rparr>) w1)"

text \<open>
  The constructor: the field initialisers, the parameter property \<open>online\<close>, then
  \<open>if (online === true) this.comeOnline()\<close>. The new object is the last of the list.
\<close>

definition newClient :: "'n runtime \<Rightarrow> bool \<Rightarrow> 'n world \<Rightarrow> 'n outcome" where
  "newClient rt requestedOnline w =
     (let cid = length (clientObjects w);
          c = \<lparr>clientTable = newTable, outbox = [], clientGroupID = nextUUID w,
               clientVersion = 0, online = requestedOnline\<rparr>;
          w1 = w\<lparr>clientObjects := clientObjects w @ [c], nextUUID := Suc (nextUUID w)\<rparr>
      in if requestedOnline then comeOnline rt cid w1 else (None, w1))"

text \<open>
  \<open>getData\<close>. Offline, \<open>this.outbox.forEach(item => item.update.apply(outTable))\<close> runs on
  a copy of the table: the arrow function returns what \<open>apply\<close> returns, and \<open>forEach\<close> of
  the queue (typescript-collections) stops at the first callback that returns \<open>false\<close>.
  \<open>apply\<close> writes its bookkeeping into the update objects of the outbox.
\<close>

fun replay ::
  "'n runtime \<Rightarrow> 'n Message list \<Rightarrow> 'n Table \<Rightarrow> error option \<times> 'n Message list \<times> 'n Table" where
  "replay rt [] T = (None, [], T)"
| "replay rt (item # items) T =
     (case applyUpdate rt (update item) T of
        Inl e \<Rightarrow> (Some e, item # items, T)
      | Inr (success, u, T') \<Rightarrow>
          if success then
            (case replay rt items T' of
               (e, items', T'') \<Rightarrow> (e, item\<lparr>update := u\<rparr> # items', T''))
          else (None, item\<lparr>update := u\<rparr> # items, T'))"

definition getData :: "'n runtime \<Rightarrow> ClientID \<Rightarrow> 'n world \<Rightarrow> (error + string) \<times> 'n world" where
  "getData rt cid w =
     (let c = getClient w cid in
      if online c then (serialize rt (clientTable c), w)
      else
        (case replay rt (outbox c) (copy (clientTable c)) of
           (e, items, outTable) \<Rightarrow>
             ((case e of Some err \<Rightarrow> Inl err | None \<Rightarrow> serialize rt outTable),
              setClient cid (c\<lparr>outbox := items\<rparr>) w)))"

subsection \<open>Runs of the system\<close>

text \<open>
  What the host application can do: construct a client, call a public method of a client
  or of the server (the callbacks \<open>sync\<close>, \<open>accepted\<close>, \<open>connected\<close>, \<open>disconnected\<close> and
  \<open>receive\<close> are public too), and, for a server with a positive delay, let the timer that
  the constructor of the server has set call \<open>process\<close>. A run continues after a call that
  threw. A call on a client ID that no constructor has returned stands for nothing in the
  code.
\<close>

datatype 'n call =
    NewClient bool
  | ComeOnline ClientID
  | GoOffline ClientID
  | GetData ClientID
  | CreateRowCall ClientID RowID
  | DestroyRowCall ClientID RowID
  | MoveRowCall ClientID RowID Index
  | CreateColumnCall ClientID ColumnID Type
  | DestroyColumnCall ClientID ColumnID
  | UpdateColumnTypeCall ClientID ColumnID Type
  | UpdateTextCellValueCall ClientID RowID ColumnID string
  | UpdateNumberCellValueCall ClientID RowID ColumnID 'n
  | Sync ClientID "'n Table" Version
  | Accepted ClientID "'n Message"
  | Connected ClientID
  | Disconnected ClientID
  | Receive "'n Message"
  | Timer

fun step :: "'n runtime \<Rightarrow> 'n call \<Rightarrow> 'n world \<Rightarrow> 'n outcome" where
  "step rt (NewClient requestedOnline) w = newClient rt requestedOnline w"
| "step rt (ComeOnline cid) w = comeOnline rt cid w"
| "step rt (GoOffline cid) w = (None, goOffline cid w)"
| "step rt (GetData cid) w =
     (case getData rt cid w of (Inl e, w') \<Rightarrow> (Some e, w') | (Inr data, w') \<Rightarrow> (None, w'))"
| "step rt (CreateRowCall cid rowID) w = createRow rt cid rowID w"
| "step rt (DestroyRowCall cid rowID) w = destroyRow rt cid rowID w"
| "step rt (MoveRowCall cid rowID targetIndex) w = moveRow rt cid rowID targetIndex w"
| "step rt (CreateColumnCall cid columnID columnType) w =
     createColumn rt cid columnID columnType w"
| "step rt (DestroyColumnCall cid columnID) w = destroyColumn rt cid columnID w"
| "step rt (UpdateColumnTypeCall cid columnID columnType) w =
     updateColumnType rt cid columnID columnType w"
| "step rt (UpdateTextCellValueCall cid rowID columnID val) w =
     updateTextCellValue rt cid rowID columnID val w"
| "step rt (UpdateNumberCellValueCall cid rowID columnID val) w =
     updateNumberCellValue rt cid rowID columnID val w"
| "step rt (Sync cid tbl v) w = (None, sync cid tbl v w)"
| "step rt (Accepted cid message) w = accepted rt cid message w"
| "step rt (Connected cid) w = (None, connected cid w)"
| "step rt (Disconnected cid) w = (None, disconnected cid w)"
| "step rt (Receive message) w = receive rt message w"
| "step rt Timer w = (if delay (server w) > 0 then process rt w else (None, w))"

fun run :: "'n runtime \<Rightarrow> 'n call list \<Rightarrow> 'n world \<Rightarrow> 'n world" where
  "run rt [] w = w"
| "run rt (c # cs) w = run rt cs (snd (step rt c w))"

subsection \<open>A runtime for evaluating examples\<close>

text \<open>
  Numbers are the integers and \<open>NaN\<close> (\<open>None\<close>). \<open>parseFloat\<close> skips leading white space
  and reads an optional sign and the decimal digits that follow, which is what JavaScript
  computes on a string that starts, after the white space, with neither a numeral nor
  \<open>Infinity\<close>, or with a signed run of at most fifteen digits that no fraction and no exponent
  follows; \<open>toString\<close> writes the decimal numeral.
\<close>

fun showNat :: "nat \<Rightarrow> string" where
  "showNat n = (if n < 10 then [hexDigit n] else showNat (n div 10) @ [hexDigit (n mod 10)])"

definition showInt :: "int \<Rightarrow> string" where
  "showInt i = (if i < 0 then CHR ''-'' # showNat (nat (- i)) else showNat (nat i))"

definition isWhiteSpace :: "char \<Rightarrow> bool" where
  "isWhiteSpace c =
     ((of_char c :: nat) = 32 \<or> (9 \<le> (of_char c :: nat) \<and> (of_char c :: nat) \<le> 13))"

definition parseIntegerPrefix :: "string \<Rightarrow> int option" where
  "parseIntegerPrefix s =
     (let t = dropWhile isWhiteSpace s;
          negative = (t \<noteq> [] \<and> hd t = CHR ''-'');
          signed = (t \<noteq> [] \<and> (hd t = CHR ''-'' \<or> hd t = CHR ''+''));
          ds = takeWhile isDigit (if signed then tl t else t)
      in if ds = [] then None
         else Some (if negative then - int (digitsToNat ds) else int (digitsToNat ds)))"

definition integerRuntime :: "int option runtime" where
  "integerRuntime =
     \<lparr>parseFloatString = parseIntegerPrefix,
      isNaN = (\<lambda>n. n = None),
      isFinite = (\<lambda>n. n \<noteq> None),
      numberToString = (\<lambda>n. case n of None \<Rightarrow> ''NaN'' | Some i \<Rightarrow> showInt i)\<rparr>"

section \<open>Properties of the shift context\<close>

lemma transformStep_nonneg:
  "0 \<le> idx \<Longrightarrow> 0 \<le> shiftIndex r \<Longrightarrow> 0 \<le> transformStep r idx"
  by (simp add: transformStep_def)

lemma transform_nonneg:
  "0 \<le> idx \<Longrightarrow> \<forall>r \<in> set shifts. 0 \<le> shiftIndex r \<Longrightarrow> 0 \<le> transform shifts idx"
  unfolding transform_def
  by (induction shifts arbitrary: idx) (simp_all add: transformStep_nonneg)

text \<open>
  C2. \<open>transform\<close> folds over the records in order, and an \<open>Insert\<close> record increments an
  index at or after it, a \<open>Delete\<close> record decrements an index after it. For a \<open>Delete\<close>
  record that hits the index itself the documentation promises \<open>-1\<close>; the code instead keeps
  the index and goes on: one record \<open>Delete(2)\<close> sends index \<open>2\<close> to \<open>2\<close>, not to the
  tombstone, and a later \<open>Insert(0)\<close> still moves it to \<open>3\<close>.
\<close>

theorem transform_delete_hit_returns_index:
  "transform (deleteAt 2 newShiftContext) 2 = 2
   \<and> transform (deleteAt 2 newShiftContext) 2 \<noteq> Tombstone
   \<and> transform (insertAt 0 (deleteAt 2 newShiftContext)) 2 = 3"
  by (simp add: transform_def transformStep_def deleteAt_def insertAt_def
      newShiftContext_def Tombstone_def)

section \<open>Properties of the updates\<close>

lemmas apply_defs =
  CreateRow_apply_def DestroyRow_apply_def MoveRow_apply_def CreateColumn_apply_def
  DestroyColumn_apply_def UpdateColumnType_apply_def UpdateTextCellValue_apply_def
  UpdateNumberCellValue_apply_def setCell_def

lemmas integerRuntime_simps =
  integerRuntime_def parseIntegerPrefix_def isWhiteSpace_def isDigit_def digitsToNat_def
  showInt_def hexDigit_def

lemma applyUpdate_false_table:
  "applyUpdate rt u T = Inr (False, u', T') \<Longrightarrow> T' = T"
  by (cases u) (auto simp: apply_defs Let_def split: option.splits if_splits)

text \<open>
  C4. For each of the eight update variants and every table: when \<open>apply\<close> returns
  \<open>false\<close>, the table after the call is the table before the call, and so is its
  serialization.
\<close>

theorem apply_false_leaves_table_unchanged:
  assumes "applyUpdate rt u T = Inr (False, u', T')"
  shows "T' = T \<and> serialize rt T' = serialize rt T"
  using applyUpdate_false_table [OF assms] by simp

definition fooTable :: "int option Table" where
  "fooTable =
     \<lparr>cells = [(''ABC'', [(''123'', Str ''foo'')])], columns = [(''123'', Text)],
      rows = [(Some ''ABC'', 0)], order = [Some ''ABC'']\<rparr>"

text \<open>
  The table with the text \<open>foo\<close> in a text column; the column cannot become a number
  column.
\<close>

theorem apply_false_leaves_table_unchanged_witness:
  "\<exists>u' T'. applyUpdate integerRuntime (UpdateColumnType ''123'' Number) fooTable
              = Inr (False, u', T')
           \<and> T' = fooTable
           \<and> serialize integerRuntime T' = serialize integerRuntime fooTable"
proof -
  obtain u' T' where h: "applyUpdate integerRuntime (UpdateColumnType ''123'' Number) fooTable
             = Inr (False, u', T')"
    by (simp add: fooTable_def UpdateColumnType_apply_def canCoerce_def coerce_def Map_has_def
        Map_get_def integerRuntime_simps)
  from apply_false_leaves_table_unchanged [OF h] h show ?thesis by blast
qed

text \<open>
  What \<open>UpdateColumnType.apply\<close> decides: it returns \<open>true\<close> exactly when the column exists
  and every row of the table has a value in the column that coerces.
\<close>

lemma coerce_None: "coerce rt ty None = None"
  by (simp add: coerce_def)

lemma UpdateColumnType_apply_true_iff:
  "(\<exists>u' T'. applyUpdate rt (UpdateColumnType columnID columnType) T = Inr (True, u', T'))
   \<longleftrightarrow> Map_has (columns T) columnID
       \<and> (\<forall>(rowID, cols) \<in> set (cells T).
            \<exists>v. Map_get cols columnID = Some v \<and> coerce rt columnType (Some v) \<noteq> None)"
proof -
  have "canCoerce rt columnID columnType T
        \<longleftrightarrow> (\<forall>(rowID, cols) \<in> set (cells T).
            \<exists>v. Map_get cols columnID = Some v \<and> coerce rt columnType (Some v) \<noteq> None)"
    unfolding canCoerce_def list_all_iff
  proof (intro ball_cong refl)
    fix x assume "x \<in> set (cells T)"
    show "(case x of (rowID, cols) \<Rightarrow> coerce rt columnType (Map_get cols columnID) \<noteq> None)
        = (case x of (rowID, cols) \<Rightarrow>
             \<exists>v. Map_get cols columnID = Some v \<and> coerce rt columnType (Some v) \<noteq> None)"
      by (cases x; cases "Map_get (snd x) columnID") (auto simp: coerce_None)
  qed
  then show ?thesis
    by (auto simp: UpdateColumnType_apply_def)
qed

text \<open>
  C5. \<open>UpdateColumnType(colID, type).apply\<close> should return \<open>true\<close> when the column exists
  and every row that has a value under it coerces, rows with no value under the column
  being unconstrained. On the table with the one column \<open>123\<close> of type \<open>Text\<close> and the one
  row \<open>ABC\<close> with no cell, no row has a value to coerce, and the code returns \<open>false\<close>:
  the cell of the row is \<open>undefined\<close>, whose coercion is \<open>undefined\<close>. This holds for every
  runtime.
\<close>

definition emptyRowTable :: "'n Table" where
  "emptyRowTable =
     \<lparr>cells = [(''ABC'', [])], columns = [(''123'', Text)],
      rows = [(Some ''ABC'', 0)], order = [Some ''ABC'']\<rparr>"

theorem UpdateColumnType_fails_on_row_without_cell:
  "applyUpdate rt (UpdateColumnType ''123'' Number) emptyRowTable
     = Inr (False, UpdateColumnType ''123'' Number, emptyRowTable)"
  by (simp add: emptyRowTable_def UpdateColumnType_apply_def canCoerce_def coerce_def Map_has_def
        Map_get_def)


text \<open>
  \<open>computeRowMap\<close> maps a row ID to a position of \<open>order\<close> that holds it, so that in a
  table whose \<open>rows\<close> map is the one \<open>computeRowMap\<close> left, \<open>splice(start, 1)\<close> removes the
  row being moved.
\<close>

lemma map_of_fold_Map_set:
  "map_of (fold (\<lambda>(k, v) m. Map_set k v m) kvs al) k = Some v
   \<Longrightarrow> (k, v) \<in> set kvs \<or> map_of al k = Some v"
proof (induction kvs arbitrary: al)
  case Nil
  then show ?case by simp
next
  case (Cons kv kvs)
  obtain k' v' where kv: "kv = (k', v')" by (cases kv)
  from Cons.prems have "map_of (fold (\<lambda>(k, v) m. Map_set k v m) kvs (Map_set k' v' al)) k = Some v"
    by (simp add: kv)
  from Cons.IH [OF this] show ?case
    by (auto simp: kv Map_set_def update_conv' split: if_splits)
qed

lemma rowMap_get:
  assumes "Map_get (rowMap ord) k = Some s"
  shows "0 \<le> s \<and> nat s < length ord \<and> ord ! nat s = k"
proof -
  from assms have "(k, s) \<in> set (zip ord (map int [0..<length ord]))"
    unfolding rowMap_def Map_get_def by (auto dest: map_of_fold_Map_set)
  then obtain j where "j < length ord" "ord ! j = k" "s = int j"
    by (auto simp: in_set_zip)
  then show ?thesis by simp
qed

lemma splice_remove_one:
  assumes "0 \<le> s" "nat s < length xs"
  shows "splice s 1 [] xs = ([xs ! nat s], take (nat s) xs @ drop (Suc (nat s)) xs)"
  using assms
  by (simp add: splice_def spliceStart_def Let_def min_def take_Suc_conv_app_nth
      Cons_nth_drop_Suc [symmetric])

lemma splice_insert:
  "splice t 0 [x] xs =
     ([], take (spliceStart t (length xs)) xs @ [x] @ drop (spliceStart t (length xs)) xs)"
  by (simp add: splice_def Let_def)

text \<open>
  C3, as amended. \<open>MoveRow.apply\<close> returns \<open>false\<close> exactly when the row ID is not a row of
  the table. When the row is there, the move is accepted whatever the target index is: the
  row is taken out and inserted again at the position \<open>splice\<close> clamps the target index to,
  the end of the remaining sequence for an index beyond it, and for a negative index the
  position counted from the end, not below \<open>0\<close>.
\<close>

theorem MoveRow_apply_clamps_target:
  assumes "rows T = rowMap (order T)"
  shows "applyUpdate rt (MoveRow rowID targetIndex start) T =
     (case Map_get (rows T) (Some rowID) of
        None \<Rightarrow> Inr (False, MoveRow rowID targetIndex start, T)
      | Some s \<Rightarrow>
          let rest = take (nat s) (order T) @ drop (Suc (nat s)) (order T);
              pos = (if targetIndex < 0 then nat (max (int (length rest) + targetIndex) 0)
                     else min (nat targetIndex) (length rest))
          in Inr (True, MoveRow rowID targetIndex s,
                  computeRowMap (T\<lparr>order := take pos rest @ [Some rowID] @ drop pos rest\<rparr>)))"
proof (cases "Map_get (rows T) (Some rowID)")
  case None
  then show ?thesis by (simp add: MoveRow_apply_def)
next
  case (Some s)
  define rest where "rest = take (nat s) (order T) @ drop (Suc (nat s)) (order T)"
  from Some assms have "Map_get (rowMap (order T)) (Some rowID) = Some s" by simp
  from rowMap_get [OF this]
  have s: "0 \<le> s" "nat s < length (order T)" "order T ! nat s = Some rowID" by simp_all
  have r: "splice s 1 [] (order T) = ([Some rowID], rest)"
    using splice_remove_one [OF s(1,2)] s(3) by (simp add: rest_def)
  have "applyUpdate rt (MoveRow rowID targetIndex start) T =
          Inr (True, MoveRow rowID targetIndex s,
               computeRowMap (T\<lparr>order := snd (splice targetIndex 0 [Some rowID] rest)\<rparr>))"
    by (simp only: applyUpdate.simps MoveRow_apply_def Some option.simps r Let_def fst_conv
        snd_conv list.simps)
  also have "snd (splice targetIndex 0 [Some rowID] rest) =
               take (spliceStart targetIndex (length rest)) rest @ [Some rowID]
               @ drop (spliceStart targetIndex (length rest)) rest"
    by (simp only: splice_insert snd_conv)
  finally show ?thesis
    by (simp only: Some option.simps Let_def rest_def [symmetric] spliceStart_def)
qed

text \<open>
  The server after one client has come online and created the rows \<open>A\<close> and \<open>B\<close>.
\<close>

definition twoRowWorld :: "int option world" where
  "twoRowWorld =
     run integerRuntime [NewClient True, CreateRowCall 0 ''A'', CreateRowCall 0 ''B''] (newWorld 0)"

definition twoRowTable :: "int option Table" where
  "twoRowTable =
     \<lparr>cells = [(''A'', []), (''B'', [])], columns = [],
      rows = [(Some ''A'', 0), (Some ''B'', 1)], order = [Some ''A'', Some ''B'']\<rparr>"

text \<open>
  C3 as stated fails: with the rows \<open>A\<close> and \<open>B\<close>, moving \<open>A\<close> to index \<open>5\<close>, outside
  \<open>[0, 1]\<close>, is not rejected. \<open>apply\<close> returns \<open>true\<close> and puts \<open>A\<close> last; the coordinator
  accepts the message as version \<open>3\<close> and records no failed group.
\<close>

theorem MoveRow_out_of_range_is_accepted:
  "serverTable (server twoRowWorld) = twoRowTable
   \<and> serverVersion (server twoRowWorld) = 2
   \<and> \<not> (0 \<le> (5::int) \<and> 5 \<le> int (length (order twoRowTable)) - 1)
   \<and> applyUpdate integerRuntime (MoveRow ''A'' 5 (-1)) twoRowTable
       = Inr (True, MoveRow ''A'' 5 0,
              twoRowTable\<lparr>rows := [(Some ''B'', 0), (Some ''A'', 1)],
                            order := [Some ''B'', Some ''A'']\<rparr>)
   \<and> fst (step integerRuntime (MoveRowCall 0 ''A'' 5) twoRowWorld) = None
   \<and> serverVersion (server (snd (step integerRuntime (MoveRowCall 0 ''A'' 5) twoRowWorld))) = 3
   \<and> failed (server (snd (step integerRuntime (MoveRowCall 0 ''A'' 5) twoRowWorld))) = {}
   \<and> order (serverTable (server (snd (step integerRuntime (MoveRowCall 0 ''A'' 5) twoRowWorld))))
       = [Some ''B'', Some ''A'']"
  by code_simp

theorem MoveRow_apply_clamps_target_witness:
  "rows twoRowTable = rowMap (order twoRowTable)
   \<and> applyUpdate integerRuntime (MoveRow ''A'' 5 (-1)) twoRowTable
       = Inr (True, MoveRow ''A'' 5 0,
              twoRowTable\<lparr>rows := [(Some ''B'', 0), (Some ''A'', 1)],
                            order := [Some ''B'', Some ''A'']\<rparr>)
   \<and> applyUpdate integerRuntime (MoveRow ''C'' 0 (-1)) twoRowTable
       = Inr (False, MoveRow ''C'' 0 (-1), twoRowTable)"
proof -
  have h: "rows twoRowTable = rowMap (order twoRowTable)"
    by (simp add: twoRowTable_def rowMap_def Map_set_def)
  have g: "Map_get (rows twoRowTable) (Some ''A'') = Some 0"
          "Map_get (rows twoRowTable) (Some ''C'') = None"
          "order twoRowTable = [Some ''A'', Some ''B'']"
    by (simp_all add: twoRowTable_def Map_get_def)
  have r: "rowMap [Some ''B'', Some ''A''] = [(Some ''B'', 0), (Some ''A'', 1)]"
    by (simp add: rowMap_def Map_set_def)
  have a: "applyUpdate integerRuntime (MoveRow ''A'' 5 (-1)) twoRowTable
       = Inr (True, MoveRow ''A'' 5 0,
              twoRowTable\<lparr>rows := [(Some ''B'', 0), (Some ''A'', 1)],
                            order := [Some ''B'', Some ''A'']\<rparr>)"
    using MoveRow_apply_clamps_target [OF h, of integerRuntime "''A''" 5 "-1"]
    by (simp add: g computeRowMap_def r)
  have b: "applyUpdate integerRuntime (MoveRow ''C'' 0 (-1)) twoRowTable
       = Inr (False, MoveRow ''C'' 0 (-1), twoRowTable)"
    using MoveRow_apply_clamps_target [OF h, of integerRuntime "''C''" 0 "-1"]
    by (simp add: g)
  from h a b show ?thesis by blast
qed

section \<open>Properties of the coordinator and the clients\<close>

text \<open>
  What the server and its callbacks leave alone: the set of failed groups only grows, and
  the \<open>online\<close> flag and the outbox of every client object stay as they are.
\<close>

definition clientFlags :: "'n world \<Rightarrow> (bool \<times> 'n Message list) list" where
  "clientFlags w = map (\<lambda>c. (online c, outbox c)) (clientObjects w)"

definition frame :: "'n world \<Rightarrow> 'n world \<Rightarrow> bool" where
  "frame w w' \<longleftrightarrow> failed (server w) \<subseteq> failed (server w') \<and> clientFlags w' = clientFlags w"

lemma frame_refl: "frame w w"
  by (simp add: frame_def)

lemma frame_trans: "frame w w' \<Longrightarrow> frame w' w'' \<Longrightarrow> frame w w''"
  by (auto simp: frame_def)

lemma map_list_update_same:
  "f y = f (xs ! i) \<Longrightarrow> map f (xs[i := y]) = map f xs"
  by (cases "i < length xs")
     (simp_all add: map_update list_update_same_conv list_update_beyond)

lemma frame_setClient:
  "online c = online (getClient w cid) \<Longrightarrow> outbox c = outbox (getClient w cid)
   \<Longrightarrow> frame w (setClient cid c w)"
  by (simp add: frame_def clientFlags_def setClient_def getClient_def map_list_update_same)

lemma frame_nextUUID: "frame w (w\<lparr>nextUUID := n\<rparr>)"
  by (simp add: frame_def clientFlags_def)

lemma getClient_nextUUID: "getClient (w\<lparr>nextUUID := n\<rparr>) cid = getClient w cid"
  by (simp add: getClient_def)

lemma frame_sync: "frame w (sync cid tbl v w)"
  unfolding sync_def Let_def
  by (auto intro!: frame_trans [OF frame_nextUUID frame_setClient] frame_setClient
      simp: getClient_nextUUID)

lemma frame_accepted: "frame w (snd (accepted rt cid message w))"
  unfolding accepted_def Let_def
  by (auto intro!: frame_trans [OF frame_nextUUID frame_setClient] frame_refl
      simp: getClient_nextUUID split: sum.splits prod.splits)

lemma frame_acceptEach: "frame w (snd (acceptEach rt message cids w))"
proof (induction cids arbitrary: w)
  case Nil
  show ?case by (simp add: frame_refl)
next
  case (Cons cid cids)
  obtain r w' where a: "accepted rt cid message w = (r, w')"
    by (cases "accepted rt cid message w")
  have f: "frame w w'"
    using frame_accepted [of w rt cid message] a by simp
  show ?case
  proof (cases r)
    case None
    with a f Cons.IH [of w'] show ?thesis by (auto intro: frame_trans)
  next
    case (Some e)
    with a f show ?thesis by simp
  qed
qed

lemma frame_reject: "frame w (snd (reject messageID gid w))"
  by (simp add: reject_def frame_refl split: list.splits)

lemma frame_server_update:
  "failed (server w) \<subseteq> failed srv \<Longrightarrow> frame w (w\<lparr>server := srv\<rparr>)"
  by (simp add: frame_def clientFlags_def)

lemma frame_processMessage: "frame w (snd (processMessage rt message w))"
  unfolding processMessage_def Let_def accept_def
  by (auto intro!: frame_refl frame_trans [OF frame_server_update frame_acceptEach]
        frame_trans [OF frame_server_update frame_reject]
      split: sum.splits prod.splits)

lemma frame_process: "frame w (snd (process rt w))"
proof (induction rt w rule: process.induct)
  case (1 rt w)
  show ?case
  proof (cases "pending (server w)")
    case Nil
    then show ?thesis by (simp add: process.simps [of rt w] frame_refl)
  next
    case (Cons message rest)
    define w0 where "w0 = w\<lparr>server := (server w)\<lparr>pending := rest\<rparr>\<rparr>"
    obtain r w' where p: "processMessage rt message w0 = (r, w')"
      by (cases "processMessage rt message w0")
    have f0: "frame w w0"
      unfolding w0_def by (rule frame_server_update) simp
    have f1: "frame w0 w'"
      using frame_processMessage [of w0 rt message] p by simp
    show ?thesis
    proof (cases r)
      case None
      have p': "(r, w') = processMessage rt message (w\<lparr>server := (server w)\<lparr>pending := rest\<rparr>\<rparr>)"
        using p by (simp add: w0_def)
      have "frame w' (snd (process rt w'))"
        by (rule "1.IH" [OF Cons p' None])
      with f0 f1 have "frame w (snd (process rt w'))" by (blast intro: frame_trans)
      then show ?thesis
        using Cons p None by (simp add: process.simps [of rt w] w0_def)
    next
      case (Some e)
      from f0 f1 have "frame w w'" by (blast intro: frame_trans)
      then show ?thesis
        using Cons p Some by (simp add: process.simps [of rt w] w0_def)
    qed
  qed
qed

lemma frame_receive: "frame w (snd (receive rt message w))"
  unfolding receive_def Let_def
  by (auto intro!: frame_trans [OF frame_server_update frame_process] frame_server_update)

lemma frame_sendEach: "frame w (snd (sendEach rt items w))"
proof (induction items arbitrary: w)
  case Nil
  show ?case by (simp add: frame_refl)
next
  case (Cons item items)
  obtain r w' where a: "receive rt item w = (r, w')"
    by (cases "receive rt item w")
  have f: "frame w w'"
    using frame_receive [of w rt item] a by simp
  show ?case
  proof (cases r)
    case None
    with a f Cons.IH [of w'] show ?thesis by (auto intro: frame_trans)
  next
    case (Some e)
    with a f show ?thesis by simp
  qed
qed

lemma frame_connected: "frame w (connected cid w)"
  unfolding connected_def Let_def
  by (rule frame_trans [OF frame_server_update frame_sync]) simp

lemma frame_disconnected: "frame w (disconnected cid w)"
  unfolding disconnected_def by (rule frame_server_update) simp

text \<open>
  The invariant of the clients: a client object whose \<open>online\<close> flag is set has an empty
  outbox. Every call of the host application keeps it, and keeps the failed groups.
\<close>

definition outboxInvariant :: "'n world \<Rightarrow> bool" where
  "outboxInvariant w = (\<forall>c \<in> set (clientObjects w). online c \<longrightarrow> outbox c = [])"

definition grows :: "'n world \<Rightarrow> 'n world \<Rightarrow> bool" where
  "grows w w' \<longleftrightarrow>
     failed (server w) \<subseteq> failed (server w') \<and> (outboxInvariant w \<longrightarrow> outboxInvariant w')"

lemma outboxInvariant_flags:
  "outboxInvariant w \<longleftrightarrow> (\<forall>p \<in> set (clientFlags w). fst p \<longrightarrow> snd p = [])"
  by (simp add: outboxInvariant_def clientFlags_def)

lemma frame_grows: "frame w w' \<Longrightarrow> grows w w'"
  by (simp add: frame_def grows_def outboxInvariant_flags)

lemma grows_refl: "grows w w"
  by (simp add: grows_def)

lemma grows_trans: "grows w w' \<Longrightarrow> grows w' w'' \<Longrightarrow> grows w w''"
  by (auto simp: grows_def)

lemma grows_setClient:
  "(online c \<longrightarrow> outbox c = []) \<Longrightarrow> grows w (setClient cid c w)"
  unfolding grows_def outboxInvariant_def setClient_def
  by (auto dest: set_update_subset_insert [THEN subsetD])

lemma grows_nextUUID: "grows w (w\<lparr>nextUUID := n\<rparr>)"
  by (rule frame_grows [OF frame_nextUUID])

lemma grows_send: "grows w (snd (send rt cid message w))"
  unfolding send_def Let_def
  by (auto intro!: frame_grows [OF frame_receive] grows_setClient)

lemma grows_issue: "grows w (snd (issue rt cid u w))"
  unfolding issue_def Let_def
  by (rule grows_trans [OF grows_nextUUID grows_send])

lemma grows_comeOnline: "grows w (snd (comeOnline rt cid w))"
proof -
  define w1 where "w1 = connected cid w"
  obtain r w2 where s: "sendEach rt (outbox (getClient w1 cid)) w1 = (r, w2)"
    by (cases "sendEach rt (outbox (getClient w1 cid)) w1")
  have "grows w w1"
    unfolding w1_def by (rule frame_grows [OF frame_connected])
  moreover have "grows w1 w2"
    using frame_grows [OF frame_sendEach [of w1 rt "outbox (getClient w1 cid)"]] s by simp
  ultimately have g: "grows w w2" by (rule grows_trans)
  show ?thesis
  proof (cases r)
    case None
    have "grows w2 (setClient cid ((getClient w2 cid)\<lparr>outbox := [], online := True\<rparr>) w2)"
      by (rule grows_setClient) simp
    with g have "grows w (setClient cid ((getClient w2 cid)\<lparr>outbox := [], online := True\<rparr>) w2)"
      by (rule grows_trans)
    then show ?thesis
      using s None by (simp add: comeOnline_def w1_def)
  next
    case (Some e)
    with g s show ?thesis by (simp add: comeOnline_def w1_def)
  qed
qed

lemma grows_goOffline: "grows w (goOffline cid w)"
  unfolding goOffline_def Let_def
  by (rule grows_trans [OF frame_grows [OF frame_disconnected] grows_setClient]) simp

lemma grows_newClient: "grows w (snd (newClient rt requestedOnline w))"
proof -
  define c :: "'a Client" where
    "c = \<lparr>clientTable = newTable, outbox = [], clientGroupID = nextUUID w,
          clientVersion = 0, online = requestedOnline\<rparr>"
  define w1 where
    "w1 = w\<lparr>clientObjects := clientObjects w @ [c], nextUUID := Suc (nextUUID w)\<rparr>"
  have g: "grows w w1"
    by (auto simp: grows_def outboxInvariant_def w1_def c_def)
  show ?thesis
  proof (cases requestedOnline)
    case True
    have "grows w1 (snd (comeOnline rt (length (clientObjects w)) w1))"
      by (rule grows_comeOnline)
    with g have "grows w (snd (comeOnline rt (length (clientObjects w)) w1))"
      by (rule grows_trans)
    then show ?thesis
      using True by (simp add: newClient_def Let_def w1_def c_def)
  next
    case False
    with g show ?thesis by (simp add: newClient_def Let_def w1_def c_def)
  qed
qed

lemma grows_getData: "grows w (snd (getData rt cid w))"
  unfolding getData_def Let_def
  by (auto intro!: grows_refl grows_setClient split: prod.splits)

lemma grows_step: "grows w (snd (step rt c w))"
proof (cases c)
  case (GetData cid)
  have "snd (step rt (GetData cid) w) = snd (getData rt cid w)"
    by (simp split: prod.splits sum.splits)
  then show ?thesis using GetData grows_getData [of w rt cid] by simp
next
  case Timer
  then show ?thesis by (simp add: frame_grows [OF frame_process] grows_refl)
qed (simp_all add: grows_newClient grows_comeOnline grows_goOffline grows_issue
      frame_grows [OF frame_sync] frame_grows [OF frame_accepted]
      frame_grows [OF frame_connected] frame_grows [OF frame_disconnected]
      frame_grows [OF frame_receive]
      createRow_def destroyRow_def moveRow_def createColumn_def destroyColumn_def
      updateColumnType_def updateTextCellValue_def updateNumberCellValue_def)

lemma grows_run: "grows w (run rt cs w)"
proof (induction cs arbitrary: w)
  case Nil
  show ?case by (simp add: grows_refl)
next
  case (Cons c cs)
  show ?case
    using grows_trans [OF grows_step [of w rt c] Cons.IH [of "snd (step rt c w)"]] by simp
qed

lemma outboxInvariant_newWorld: "outboxInvariant (newWorld d)"
  by (simp add: outboxInvariant_def newWorld_def)

text \<open>
  A property of tables that every \<open>apply\<close> keeps is kept by the table of the server in
  every run: the server writes its table through \<open>apply\<close> only.
\<close>

definition closedUnderApply :: "'n runtime \<Rightarrow> ('n Table \<Rightarrow> bool) \<Rightarrow> bool" where
  "closedUnderApply rt P \<longleftrightarrow>
     (\<forall>u T b u' T'. P T \<and> applyUpdate rt u T = Inr (b, u', T') \<longrightarrow> P T')"

lemma server_sync: "server (sync cid tbl v w) = server w"
  by (simp add: sync_def Let_def server_setClient)

lemma serverTable_processMessage:
  assumes "closedUnderApply rt P" and "P (serverTable (server w))"
  shows "P (serverTable (server (snd (processMessage rt message w))))"
proof -
  have ap: "P T'" if "applyUpdate rt u (serverTable (server w)) = Inr (b, u', T')" for u b u' T'
    using assms that unfolding closedUnderApply_def by blast
  show ?thesis
    using assms(2)
    by (auto simp: processMessage_def Let_def accept_def server_acceptEach server_reject
        needsTransform_def dest: ap split: sum.splits prod.splits)
qed

lemma serverTable_process:
  "closedUnderApply rt P \<Longrightarrow> P (serverTable (server w))
   \<Longrightarrow> P (serverTable (server (snd (process rt w))))"
proof (induction rt w rule: process.induct)
  case (1 rt w)
  note cl = "1.prems"(1) and pw = "1.prems"(2)
  show ?case
  proof (cases "pending (server w)")
    case Nil
    with pw show ?thesis by (simp add: process.simps [of rt w])
  next
    case (Cons message rest)
    define w0 where "w0 = w\<lparr>server := (server w)\<lparr>pending := rest\<rparr>\<rparr>"
    obtain r w' where p: "processMessage rt message w0 = (r, w')"
      by (cases "processMessage rt message w0")
    have "P (serverTable (server w0))"
      using pw by (simp add: w0_def)
    from serverTable_processMessage [OF cl this, of message] p
    have f1: "P (serverTable (server w'))" by simp
    show ?thesis
    proof (cases r)
      case None
      have p': "(r, w') = processMessage rt message (w\<lparr>server := (server w)\<lparr>pending := rest\<rparr>\<rparr>)"
        using p by (simp add: w0_def)
      have "P (serverTable (server (snd (process rt w'))))"
        by (rule "1.IH" [OF Cons p' None cl f1])
      then show ?thesis
        using Cons p None by (simp add: process.simps [of rt w] w0_def)
    next
      case (Some e)
      with f1 show ?thesis
        using Cons p by (simp add: process.simps [of rt w] w0_def)
    qed
  qed
qed

lemma serverTable_receive:
  assumes "closedUnderApply rt P" and "P (serverTable (server w))"
  shows "P (serverTable (server (snd (receive rt message w))))"
proof -
  define w1 where "w1 = w\<lparr>server := (server w)\<lparr>pending := pending (server w) @ [message]\<rparr>\<rparr>"
  have p1: "P (serverTable (server w1))"
    using assms(2) by (simp add: w1_def)
  show ?thesis
  proof (cases "delay (server w1) = 0")
    case True
    with serverTable_process [OF assms(1) p1] show ?thesis
      by (simp add: receive_def Let_def w1_def)
  next
    case False
    with p1 show ?thesis by (simp add: receive_def Let_def w1_def)
  qed
qed

lemma serverTable_sendEach:
  "closedUnderApply rt P \<Longrightarrow> P (serverTable (server w))
   \<Longrightarrow> P (serverTable (server (snd (sendEach rt items w))))"
proof (induction items arbitrary: w)
  case Nil
  then show ?case by simp
next
  case (Cons item items)
  obtain r w' where a: "receive rt item w = (r, w')"
    by (cases "receive rt item w")
  have f: "P (serverTable (server w'))"
    using serverTable_receive [OF Cons.prems, of item] a by simp
  show ?case
  proof (cases r)
    case None
    with a Cons.IH [OF Cons.prems(1) f] show ?thesis by simp
  next
    case (Some e)
    with a f show ?thesis by simp
  qed
qed

lemma serverTable_connected: "serverTable (server (connected cid w)) = serverTable (server w)"
  by (simp add: connected_def Let_def server_sync)

lemma serverTable_send:
  assumes "closedUnderApply rt P" and "P (serverTable (server w))"
  shows "P (serverTable (server (snd (send rt cid message w))))"
proof (cases "online (getClient w cid)")
  case True
  with serverTable_receive [OF assms, of message] show ?thesis
    by (simp add: send_def Let_def)
next
  case False
  with assms(2) show ?thesis by (simp add: send_def Let_def server_setClient)
qed

lemma serverTable_issue:
  assumes "closedUnderApply rt P" and "P (serverTable (server w))"
  shows "P (serverTable (server (snd (issue rt cid u w))))"
proof -
  have "P (serverTable (server (w\<lparr>nextUUID := Suc (nextUUID w)\<rparr>)))"
    using assms(2) by simp
  from serverTable_send [OF assms(1) this] show ?thesis
    by (simp add: issue_def Let_def)
qed

lemma serverTable_comeOnline:
  assumes "closedUnderApply rt P" and "P (serverTable (server w))"
  shows "P (serverTable (server (snd (comeOnline rt cid w))))"
proof -
  define w1 where "w1 = connected cid w"
  obtain r w2 where s: "sendEach rt (outbox (getClient w1 cid)) w1 = (r, w2)"
    by (cases "sendEach rt (outbox (getClient w1 cid)) w1")
  have "P (serverTable (server w1))"
    using assms(2) by (simp add: w1_def serverTable_connected)
  from serverTable_sendEach [OF assms(1) this, of "outbox (getClient w1 cid)"] s
  have "P (serverTable (server w2))" by simp
  then show ?thesis
    using s by (cases r) (simp_all add: comeOnline_def w1_def server_setClient)
qed

lemma serverTable_newClient:
  assumes "closedUnderApply rt P" and "P (serverTable (server w))"
  shows "P (serverTable (server (snd (newClient rt requestedOnline w))))"
proof (cases requestedOnline)
  case True
  define w1 where
    "w1 = w\<lparr>clientObjects := clientObjects w @
            [\<lparr>clientTable = newTable, outbox = [], clientGroupID = nextUUID w,
              clientVersion = 0, online = requestedOnline\<rparr>],
          nextUUID := Suc (nextUUID w)\<rparr>"
  have "P (serverTable (server w1))"
    using assms(2) by (simp add: w1_def)
  from serverTable_comeOnline [OF assms(1) this, of "length (clientObjects w)"]
  show ?thesis
    using True by (simp add: newClient_def Let_def w1_def)
next
  case False
  with assms(2) show ?thesis by (simp add: newClient_def Let_def)
qed

lemma server_getData: "server (snd (getData rt cid w)) = server w"
  by (simp add: getData_def Let_def server_setClient split: prod.splits)

lemma serverTable_step:
  assumes "closedUnderApply rt P" and "P (serverTable (server w))"
  shows "P (serverTable (server (snd (step rt c w))))"
proof (cases c)
  case (GetData cid)
  have "snd (step rt (GetData cid) w) = snd (getData rt cid w)"
    by (simp split: prod.splits sum.splits)
  then show ?thesis using GetData assms(2) by (simp add: server_getData)
next
  case (GoOffline cid)
  then show ?thesis
    using assms(2) by (simp add: goOffline_def Let_def server_setClient disconnected_def)
qed (simp_all add: assms(2) serverTable_newClient [OF assms] serverTable_comeOnline [OF assms]
      serverTable_issue [OF assms] serverTable_process [OF assms] serverTable_receive [OF assms]
      serverTable_connected server_sync server_accepted disconnected_def
      createRow_def destroyRow_def
      moveRow_def createColumn_def destroyColumn_def updateColumnType_def
      updateTextCellValue_def updateNumberCellValue_def)

lemma serverTable_run:
  "closedUnderApply rt P \<Longrightarrow> P (serverTable (server w))
   \<Longrightarrow> P (serverTable (server (run rt cs w)))"
proof (induction cs arbitrary: w)
  case Nil
  then show ?case by simp
next
  case (Cons c cs)
  from Cons.IH [OF Cons.prems(1) serverTable_step [OF Cons.prems, of c]]
  show ?case by simp
qed

text \<open>
  In particular the \<open>rows\<close> map of the table of the server is always the one that
  \<open>computeRowMap\<close> derives from \<open>order\<close>: the table on which the coordinator applies a
  \<open>MoveRow\<close> meets the hypothesis under which the target of the move is clamped.
\<close>

lemma coherent_computeRowMap: "rows (computeRowMap T) = rowMap (order (computeRowMap T))"
  by (simp add: computeRowMap_def)

lemma coherent_applyUpdate:
  assumes "rows T = rowMap (order T)" and "applyUpdate rt u T = Inr (b, u', T')"
  shows "rows T' = rowMap (order T')"
proof (cases u)
  case (CreateRow rowID)
  with assms show ?thesis
    by (auto simp: CreateRow_apply_def Let_def coherent_computeRowMap split: if_splits)
next
  case (DestroyRow rowID index)
  with assms show ?thesis
    by (auto simp: DestroyRow_apply_def Let_def coherent_computeRowMap split: option.splits)
next
  case (MoveRow rowID targetIndex start)
  with assms show ?thesis
    by (auto simp: MoveRow_apply_def Let_def coherent_computeRowMap split: option.splits)
next
  case (CreateColumn columnID columnType)
  with assms show ?thesis
    by (auto simp: CreateColumn_apply_def split: if_splits)
next
  case (DestroyColumn columnID)
  with assms show ?thesis
    by (auto simp: DestroyColumn_apply_def Let_def split: if_splits)
next
  case (UpdateColumnType columnID columnType)
  with assms show ?thesis
    by (auto simp: UpdateColumnType_apply_def split: if_splits)
next
  case (UpdateTextCellValue rowID columnID val)
  with assms show ?thesis
    by (auto simp: UpdateTextCellValue_apply_def setCell_def split: option.splits if_splits)
next
  case (UpdateNumberCellValue rowID columnID val)
  with assms show ?thesis
    by (auto simp: UpdateNumberCellValue_apply_def setCell_def split: option.splits if_splits)
qed

lemma closedUnderApply_coherent:
  "closedUnderApply rt (\<lambda>T. rows T = rowMap (order T))"
  unfolding closedUnderApply_def by (blast intro: coherent_applyUpdate)

lemma coordinator_table_coherent:
  "rows (serverTable (server (run rt calls (newWorld d))))
     = rowMap (order (serverTable (server (run rt calls (newWorld d)))))"
  by (rule serverTable_run [OF closedUnderApply_coherent])
     (simp add: newWorld_def newServer_def newTable_def rowMap_def)

text \<open>
  C8. A group ID that is in the set of failed groups is there after every further run of
  the system, and whenever the coordinator then processes a message of that group, the
  iteration ends normally and leaves the whole state as it was: the table, the version, the
  history and every client are untouched, so the message was neither transformed nor
  applied nor announced. The loop of \<open>process\<close> goes on with the messages queued behind it.
\<close>

theorem failed_group_stays_failed_and_is_dropped:
  assumes "g \<in> failed (server w)" and "groupID message = g"
  shows "g \<in> failed (server (run rt calls w))
         \<and> processMessage rt message (run rt calls w) = (None, run rt calls w)
         \<and> (\<forall>w' rest. g \<in> failed (server w') \<and> pending (server w') = message # rest
               \<longrightarrow> process rt w' = process rt (w'\<lparr>server := (server w')\<lparr>pending := rest\<rparr>\<rparr>))"
proof -
  have 1: "g \<in> failed (server (run rt calls w))"
    using assms(1) grows_run [of w rt calls] by (auto simp: grows_def)
  have 2: "processMessage rt message w' = (None, w')" if "g \<in> failed (server w')" for w'
    using that assms(2) by (simp add: processMessage_def)
  have 3: "process rt w' = process rt (w'\<lparr>server := (server w')\<lparr>pending := rest\<rparr>\<rparr>)"
    if "g \<in> failed (server w')" and "pending (server w') = message # rest" for w' rest
    using that 2 [of "w'\<lparr>server := (server w')\<lparr>pending := rest\<rparr>\<rparr>"]
    by (simp add: process.simps [of rt w'])
  from 1 2 [OF 1] 3 show ?thesis by blast
qed

text \<open>
  The state after the client of \<open>twoRowWorld\<close> has asked for a second row \<open>A\<close>, which the
  coordinator rejects, and the message that the same client then writes for a row \<open>C\<close>: it
  carries the group ID of the rejected message.
\<close>

definition rejectedWorld :: "int option world" where
  "rejectedWorld = snd (step integerRuntime (CreateRowCall 0 ''A'') twoRowWorld)"

definition dependentMessage :: "int option Message" where
  "dependentMessage = \<lparr>version = 2, groupID = 4, update = CreateRow ''C'', UUID = 6\<rparr>"

theorem failed_group_stays_failed_and_is_dropped_witness:
  "4 \<in> failed (server rejectedWorld)
   \<and> groupID dependentMessage = 4
   \<and> outbox (getClient (snd (step integerRuntime (GoOffline 0) rejectedWorld)) 0) = []
   \<and> outbox (getClient (run integerRuntime [GoOffline 0, CreateRowCall 0 ''C'']
                rejectedWorld) 0) = [dependentMessage]
   \<and> 4 \<in> failed (server (run integerRuntime [GoOffline 0, CreateRowCall 0 ''C''] rejectedWorld))
   \<and> processMessage integerRuntime dependentMessage
         (run integerRuntime [GoOffline 0, CreateRowCall 0 ''C''] rejectedWorld)
       = (None, run integerRuntime [GoOffline 0, CreateRowCall 0 ''C''] rejectedWorld)"
proof -
  have h1: "4 \<in> failed (server rejectedWorld)" by code_simp
  have h2: "groupID dependentMessage = 4" by (simp add: dependentMessage_def)
  have o1: "outbox (getClient (snd (step integerRuntime (GoOffline 0) rejectedWorld)) 0) = []"
    by code_simp
  have o2: "outbox (getClient (run integerRuntime [GoOffline 0, CreateRowCall 0 ''C'']
                rejectedWorld) 0) = [dependentMessage]"
    by code_simp
  from failed_group_stays_failed_and_is_dropped [OF h1 h2,
      of integerRuntime "[GoOffline 0, CreateRowCall 0 ''C'']"] h1 h2 o1 o2
  show ?thesis by blast
qed

text \<open>
  C10. In every state that calls of the host application reach from a fresh system, a
  client whose \<open>online\<close> flag is set has an empty outbox; and \<open>getData\<close> on a client that
  is online returns the serialization of its table and changes nothing, whatever its outbox.
\<close>

theorem online_client_has_empty_outbox:
  "outboxInvariant (run rt calls (newWorld d))
   \<and> (\<forall>w cid. online (getClient w cid)
         \<longrightarrow> getData rt cid w = (serialize rt (clientTable (getClient w cid)), w))"
proof
  show "outboxInvariant (run rt calls (newWorld d))"
    using grows_run [of "newWorld d" rt calls] outboxInvariant_newWorld [of d]
    unfolding grows_def by blast
  show "\<forall>w cid. online (getClient w cid)
         \<longrightarrow> getData rt cid w = (serialize rt (clientTable (getClient w cid)), w)"
    by (simp add: getData_def)
qed

text \<open>A client that goes offline, edits, and comes back.\<close>

definition reconnectCalls :: "int option call list" where
  "reconnectCalls = [NewClient True, GoOffline 0, CreateRowCall 0 ''A'', ComeOnline 0]"

theorem online_client_has_empty_outbox_witness:
  "\<not> online (getClient (run integerRuntime (take 3 reconnectCalls) (newWorld 0)) 0)
   \<and> length (outbox (getClient (run integerRuntime (take 3 reconnectCalls) (newWorld 0)) 0)) = 1
   \<and> online (getClient (run integerRuntime reconnectCalls (newWorld 0)) 0)
   \<and> outbox (getClient (run integerRuntime reconnectCalls (newWorld 0)) 0) = []
   \<and> getData integerRuntime 0 (run integerRuntime reconnectCalls (newWorld 0))
       = (serialize integerRuntime
            (clientTable (getClient (run integerRuntime reconnectCalls (newWorld 0)) 0)),
          run integerRuntime reconnectCalls (newWorld 0))"
proof -
  define W where "W = run integerRuntime reconnectCalls (newWorld 0)"
  have off: "\<not> online (getClient (run integerRuntime (take 3 reconnectCalls) (newWorld 0)) 0)"
    "length (outbox (getClient (run integerRuntime (take 3 reconnectCalls) (newWorld 0)) 0)) = 1"
    by code_simp+
  have on: "online (getClient W 0)" unfolding W_def by code_simp
  have len: "length (clientObjects W) = 1" unfolding W_def by code_simp
  then have mem: "getClient W 0 \<in> set (clientObjects W)"
    by (simp add: getClient_def)
  have inv: "outboxInvariant W
      \<and> (\<forall>w cid. online (getClient w cid)
         \<longrightarrow> getData integerRuntime cid w = (serialize integerRuntime (clientTable (getClient w cid)), w))"
    unfolding W_def by (rule online_client_has_empty_outbox)
  from inv mem on have "outbox (getClient W 0) = []"
    unfolding outboxInvariant_def by blast
  moreover from inv on have "getData integerRuntime 0 W
       = (serialize integerRuntime (clientTable (getClient W 0)), W)" by blast
  ultimately show ?thesis using off on unfolding W_def by blast
qed

section \<open>Stored cell values and coercion\<close>

text \<open>
  The invariant as the specification words it: every value stored under a column is a
  fixed point of the coercion of the type of that column.
\<close>

definition storedValuesCanonical :: "'n runtime \<Rightarrow> 'n Table \<Rightarrow> bool" where
  "storedValuesCanonical rt T =
     (\<forall>(rowID, cols) \<in> set (cells T). \<forall>(columnID, v) \<in> set cols.
        \<forall>ty. Map_get (columns T) columnID = Some ty \<longrightarrow> coerce rt ty (Some v) = Some v)"

text \<open>
  One client creates the row \<open>ABC\<close> and the text column \<open>123\<close> and sets the cell to \<open>foo\<close>.
\<close>

definition fooWorld :: "int option world" where
  "fooWorld =
     run integerRuntime
       [NewClient True, CreateRowCall 0 ''ABC'', CreateColumnCall 0 ''123'' Text,
        UpdateTextCellValueCall 0 ''ABC'' ''123'' ''foo'']
       (newWorld 0)"

text \<open>\<open>JSON.stringify\<close> of a string is longer than the string.\<close>

lemma length_quoteChar: "1 \<le> length (quoteChar c)"
  by (simp add: quoteChar_def)

lemma length_concat_quoteChar: "length s \<le> length (concat (map quoteChar s))"
proof (induction s)
  case Nil
  show ?case by simp
next
  case (Cons c s)
  with length_quoteChar [of c] show ?case by simp
qed

lemma QuoteJSONString_neq: "QuoteJSONString s \<noteq> s"
proof
  assume "QuoteJSONString s = s"
  then have "length (QuoteJSONString s) = length s" by simp
  with length_concat_quoteChar [of s] show False
    by (simp add: QuoteJSONString_def)
qed

text \<open>
  C6 as stated fails: after the pass that accepts \<open>UpdateTextCellValue(ABC, 123, foo)\<close>
  the authoritative table holds \<open>foo\<close> under the text column \<open>123\<close>, and the coercion of
  \<open>foo\<close> by \<open>Text\<close> is the quoted string, six characters long, not \<open>foo\<close>.
\<close>

theorem stored_text_value_is_not_canonical:
  "serverTable (server fooWorld) = fooTable
   \<and> serverVersion (server fooWorld) = 3
   \<and> Map_get (columns fooTable) ''123'' = Some Text
   \<and> Map_get (cells fooTable) ''ABC'' = Some [(''123'', Str ''foo'')]
   \<and> coerce integerRuntime Text (Some (Str ''foo'')) = Some (Str (CHR 0x22 # ''foo'' @ [CHR 0x22]))
   \<and> coerce integerRuntime Text (Some (Str ''foo'')) \<noteq> Some (Str ''foo'')
   \<and> \<not> storedValuesCanonical integerRuntime (serverTable (server fooWorld))"
proof -
  have a: "serverTable (server fooWorld) = fooTable" "serverVersion (server fooWorld) = 3"
    by code_simp+
  have b: "Map_get (columns fooTable) ''123'' = Some Text"
    "Map_get (cells fooTable) ''ABC'' = Some [(''123'', Str ''foo'')]"
    by (simp_all add: fooTable_def Map_get_def)
  have c: "coerce integerRuntime Text (Some (Str ''foo''))
           = Some (Str (CHR 0x22 # ''foo'' @ [CHR 0x22]))"
    by (simp add: coerce_def QuoteJSONString_def quoteChar_def)
  have d: "\<not> storedValuesCanonical integerRuntime fooTable"
    by (simp add: storedValuesCanonical_def fooTable_def Map_get_def coerce_def
        QuoteJSONString_def quoteChar_def)
  from a b c d show ?thesis by simp
qed

text \<open>
  A pass over one message that advances the version has applied the update of the message,
  as it was sent, to the table.
\<close>

lemma serverTable_processMessage_accepted:
  assumes "processMessage rt message w = (e, w')"
    and "serverVersion (server w') = Suc (serverVersion (server w))"
  shows "\<exists>u. applyUpdate rt (update message) (serverTable (server w))
               = Inr (True, u, serverTable (server w'))"
proof -
  have nf: "groupID message \<notin> failed (server w)"
    using assms by (auto simp: processMessage_def)
  obtain r where r: "applyUpdate rt (update message) (serverTable (server w)) = r"
    by simp
  show ?thesis
  proof (cases r)
    case (Inl err)
    with assms nf r show ?thesis
      by (simp add: processMessage_def needsTransform_def)
  next
    case (Inr t)
    obtain success u tbl where t: "t = (success, u, tbl)" by (cases t)
    show ?thesis
    proof (cases success)
      case True
      define w1 where "w1 = w\<lparr>server := (server w)\<lparr>serverTable := tbl,
            serverVersion := serverVersion (server w) + 1,
            history := (history (server w))(serverVersion (server w) + 1 \<mapsto>
               message\<lparr>update := u, version := serverVersion (server w) + 1\<rparr>)\<rparr>\<rparr>"
      have "w' = snd (accept rt (message\<lparr>update := u, version := serverVersion (server w) + 1\<rparr>) w1)"
        using assms(1) nf r Inr t True
        by (simp add: processMessage_def needsTransform_def Let_def w1_def)
      then have "server w' = server w1"
        by (simp add: accept_def server_acceptEach)
      then have "serverTable (server w') = tbl" by (simp add: w1_def)
      with r Inr t True show ?thesis by simp
    next
      case False
      have "w' = snd (reject (UUID message) (groupID message)
                  (w\<lparr>server := (server w)\<lparr>serverTable := tbl,
                        failed := insert (groupID message) (failed (server w))\<rparr>\<rparr>))"
        using assms(1) nf r Inr t False
        by (simp add: processMessage_def needsTransform_def Let_def)
      then have "serverVersion (server w') = serverVersion (server w)"
        by (simp add: server_reject)
      with assms(2) show ?thesis by simp
    qed
  qed
qed

lemma setCell_stores:
  assumes "setCell u required rowID columnID val T = Inr (True, u', T')"
  shows "Map_get (columns T') columnID = Some required
       \<and> (\<exists>cols. Map_get (cells T') rowID = Some cols \<and> Map_get cols columnID = Some val)"
  using assms
  by (auto simp: setCell_def Map_get_def Map_set_def update_conv'
      split: option.splits if_splits)

text \<open>
  The cell of a row under a column, and the invariant of the specification at that one
  cell: the column has a type, the cell has a value, and the coercion of the value by the
  type is the value.
\<close>

definition cellAt :: "'n Table \<Rightarrow> RowID \<Rightarrow> ColumnID \<Rightarrow> 'n cell option" where
  "cellAt T rowID columnID =
     (case Map_get (cells T) rowID of None \<Rightarrow> None | Some cols \<Rightarrow> Map_get cols columnID)"

definition canonicalAt :: "'n runtime \<Rightarrow> 'n Table \<Rightarrow> RowID \<Rightarrow> ColumnID \<Rightarrow> bool" where
  "canonicalAt rt T rowID columnID =
     (case Map_get (columns T) columnID of
        None \<Rightarrow> False
      | Some ty \<Rightarrow>
          (case cellAt T rowID columnID of
             None \<Rightarrow> False
           | Some v \<Rightarrow> coerce rt ty (Some v) = Some v))"

lemma storedValuesCanonical_canonicalAt:
  assumes "storedValuesCanonical rt T"
    and "Map_get (columns T) columnID = Some ty" and "cellAt T rowID columnID = Some v"
  shows "canonicalAt rt T rowID columnID"
proof -
  from assms(3) obtain cols where c: "Map_get (cells T) rowID = Some cols"
    "Map_get cols columnID = Some v"
    by (auto simp: cellAt_def split: option.splits)
  then have "(rowID, cols) \<in> set (cells T)" "(columnID, v) \<in> set cols"
    by (simp_all add: Map_get_def map_of_SomeD)
  with assms(1,2) have "coerce rt ty (Some v) = Some v"
    unfolding storedValuesCanonical_def by blast
  with assms(2,3) show ?thesis by (simp add: canonicalAt_def)
qed

lemma setCell_cellAt:
  assumes "setCell u required rowID columnID val T = Inr (True, u', T')"
  shows "Map_get (columns T') columnID = Some required"
    and "cellAt T' rowID columnID = Some val"
  using setCell_stores [OF assms] by (auto simp: cellAt_def)

text \<open>
  With the default delay \<open>0\<close> and nothing left in the queue, \<open>receive\<close> runs a pass of
  \<open>process\<close> that is exactly one iteration. With a positive delay a pass drains every
  message queued since the last one, and a later iteration may overwrite or remove what
  an earlier one stored.
\<close>

lemma receive_single_pass:
  assumes "delay (server w) = 0" and "pending (server w) = []"
  shows "receive rt message w = processMessage rt message w"
proof -
  have w: "w\<lparr>server := (server w)\<lparr>pending := []\<rparr>\<rparr> = w"
    using assms(2) by simp
  obtain r w' where p: "processMessage rt message w = (r, w')"
    by (cases "processMessage rt message w")
  then have "pending (server w') = []"
    using pending_processMessage [of rt message w] assms(2) by simp
  then have e: "process rt w' = (None, w')"
    by (simp add: process.simps)
  have "receive rt message w = process rt (w\<lparr>server := (server w)\<lparr>pending := [message]\<rparr>\<rparr>)"
    using assms by (simp add: receive_def)
  also have "\<dots> = processMessage rt message w"
    using p e w by (cases r) (simp_all add: process.simps)
  finally show ?thesis .
qed

text \<open>
  C6, as amended. Consider the iteration of the loop of \<open>process\<close> that accepts an
  \<open>UpdateTextCellValue(r, c, s)\<close> or an \<open>UpdateNumberCellValue(r, c, n)\<close>, that is, applies
  it and advances the version. Right after it, column \<open>c\<close> of the authoritative table has
  the type \<open>Text\<close>, respectively \<open>Number\<close>, and the cell of row \<open>r\<close> under \<open>c\<close> holds the
  value as it was supplied: nothing is canonicalized at assignment. A stored number \<open>n\<close>
  is a fixed point of the coercion of its column exactly when \<open>parseFloat(String(n))\<close> is
  not \<open>NaN\<close> and is \<open>n\<close>. A stored text \<open>s\<close> is never one: its coercion is defined and is
  \<open>JSON.stringify(s)\<close>, the quoted string, which differs from \<open>s\<close>.
\<close>

theorem accepted_cell_value_is_stored_as_supplied:
  assumes "processMessage rt message w = (e, w')"
    and "serverVersion (server w') = Suc (serverVersion (server w))"
  shows "(update message = UpdateTextCellValue rowID columnID s \<longrightarrow>
            Map_get (columns (serverTable (server w'))) columnID = Some Text
            \<and> cellAt (serverTable (server w')) rowID columnID = Some (Str s)
            \<and> coerce rt Text (cellAt (serverTable (server w')) rowID columnID)
                = Some (Str (QuoteJSONString s))
            \<and> \<not> canonicalAt rt (serverTable (server w')) rowID columnID)
       \<and> (update message = UpdateNumberCellValue rowID columnID n \<longrightarrow>
            Map_get (columns (serverTable (server w'))) columnID = Some Number
            \<and> cellAt (serverTable (server w')) rowID columnID = Some (Num n)
            \<and> (canonicalAt rt (serverTable (server w')) rowID columnID \<longleftrightarrow>
                 \<not> isNaN rt (parseFloatString rt (numberToString rt n))
                 \<and> parseFloatString rt (numberToString rt n) = n))"
proof -
  from serverTable_processMessage_accepted [OF assms]
  obtain u where a: "applyUpdate rt (update message) (serverTable (server w))
               = Inr (True, u, serverTable (server w'))" by blast
  show ?thesis
  proof (intro conjI impI)
    assume t: "update message = UpdateTextCellValue rowID columnID s"
    with a have sc: "setCell (UpdateTextCellValue rowID columnID s) Text rowID columnID (Str s)
          (serverTable (server w)) = Inr (True, u, serverTable (server w'))"
      by (simp add: UpdateTextCellValue_apply_def)
    note c = setCell_cellAt [OF sc]
    show "Map_get (columns (serverTable (server w'))) columnID = Some Text" by (rule c(1))
    show "cellAt (serverTable (server w')) rowID columnID = Some (Str s)" by (rule c(2))
    show "coerce rt Text (cellAt (serverTable (server w')) rowID columnID)
            = Some (Str (QuoteJSONString s))"
      by (simp add: c(2) coerce_def)
    show "\<not> canonicalAt rt (serverTable (server w')) rowID columnID"
      by (simp add: canonicalAt_def c coerce_def QuoteJSONString_neq)
  next
    assume t: "update message = UpdateNumberCellValue rowID columnID n"
    with a have sc: "setCell (UpdateNumberCellValue rowID columnID n) Number rowID columnID (Num n)
          (serverTable (server w)) = Inr (True, u, serverTable (server w'))"
      by (simp add: UpdateNumberCellValue_apply_def)
    note c = setCell_cellAt [OF sc]
    show "Map_get (columns (serverTable (server w'))) columnID = Some Number" by (rule c(1))
    show "cellAt (serverTable (server w')) rowID columnID = Some (Num n)" by (rule c(2))
    show "canonicalAt rt (serverTable (server w')) rowID columnID \<longleftrightarrow>
                 \<not> isNaN rt (parseFloatString rt (numberToString rt n))
                 \<and> parseFloatString rt (numberToString rt n) = n"
      by (simp add: canonicalAt_def c coerce_def Let_def)
  qed
qed

text \<open>
  A table with a text column and a number column, and the messages by which the client
  sets a text cell to \<open>foo\<close>, a number cell to \<open>5\<close> and a number cell to \<open>NaN\<close>.
\<close>

definition typedWorld :: "int option world" where
  "typedWorld =
     run integerRuntime
       [NewClient True, CreateRowCall 0 ''ABC'', CreateColumnCall 0 ''123'' Text,
        CreateColumnCall 0 ''456'' Number]
       (newWorld 0)"

definition textMessage :: "int option Message" where
  "textMessage =
     \<lparr>version = 3, groupID = 6, update = UpdateTextCellValue ''ABC'' ''123'' ''foo'', UUID = 7\<rparr>"

definition fiveMessage :: "int option Message" where
  "fiveMessage =
     \<lparr>version = 3, groupID = 6, update = UpdateNumberCellValue ''ABC'' ''456'' (Some 5),
      UUID = 7\<rparr>"

definition nanMessage :: "int option Message" where
  "nanMessage =
     \<lparr>version = 3, groupID = 6, update = UpdateNumberCellValue ''ABC'' ''456'' None, UUID = 7\<rparr>"

theorem accepted_cell_value_is_stored_as_supplied_witness:
  "fst (processMessage integerRuntime textMessage typedWorld) = None
   \<and> serverVersion (server (snd (processMessage integerRuntime textMessage typedWorld)))
       = Suc (serverVersion (server typedWorld))
   \<and> Map_get (columns (serverTable (server (snd (processMessage integerRuntime textMessage
         typedWorld))))) ''123'' = Some Text
   \<and> cellAt (serverTable (server (snd (processMessage integerRuntime textMessage typedWorld))))
         ''ABC'' ''123'' = Some (Str ''foo'')
   \<and> coerce integerRuntime Text
         (cellAt (serverTable (server (snd (processMessage integerRuntime textMessage
            typedWorld)))) ''ABC'' ''123'')
       = Some (Str (QuoteJSONString ''foo''))
   \<and> \<not> canonicalAt integerRuntime
         (serverTable (server (snd (processMessage integerRuntime textMessage typedWorld))))
         ''ABC'' ''123''
   \<and> fst (processMessage integerRuntime fiveMessage typedWorld) = None
   \<and> serverVersion (server (snd (processMessage integerRuntime fiveMessage typedWorld)))
       = Suc (serverVersion (server typedWorld))
   \<and> Map_get (columns (serverTable (server (snd (processMessage integerRuntime fiveMessage
         typedWorld))))) ''456'' = Some Number
   \<and> cellAt (serverTable (server (snd (processMessage integerRuntime fiveMessage typedWorld))))
         ''ABC'' ''456'' = Some (Num (Some 5))
   \<and> canonicalAt integerRuntime
         (serverTable (server (snd (processMessage integerRuntime fiveMessage typedWorld))))
         ''ABC'' ''456''
   \<and> fst (processMessage integerRuntime nanMessage typedWorld) = None
   \<and> serverVersion (server (snd (processMessage integerRuntime nanMessage typedWorld)))
       = Suc (serverVersion (server typedWorld))
   \<and> cellAt (serverTable (server (snd (processMessage integerRuntime nanMessage typedWorld))))
         ''ABC'' ''456'' = Some (Num None)
   \<and> \<not> canonicalAt integerRuntime
         (serverTable (server (snd (processMessage integerRuntime nanMessage typedWorld))))
         ''ABC'' ''456''"
proof -
  define W1 where "W1 = snd (processMessage integerRuntime textMessage typedWorld)"
  define W2 where "W2 = snd (processMessage integerRuntime fiveMessage typedWorld)"
  define W3 where "W3 = snd (processMessage integerRuntime nanMessage typedWorld)"
  have e1: "fst (processMessage integerRuntime textMessage typedWorld) = None"
    and e2: "fst (processMessage integerRuntime fiveMessage typedWorld) = None"
    and e3: "fst (processMessage integerRuntime nanMessage typedWorld) = None"
    by code_simp+
  have p1: "processMessage integerRuntime textMessage typedWorld = (None, W1)"
    using e1 by (simp add: W1_def prod_eq_iff)
  have p2: "processMessage integerRuntime fiveMessage typedWorld = (None, W2)"
    using e2 by (simp add: W2_def prod_eq_iff)
  have p3: "processMessage integerRuntime nanMessage typedWorld = (None, W3)"
    using e3 by (simp add: W3_def prod_eq_iff)
  have v1: "serverVersion (server W1) = Suc (serverVersion (server typedWorld))"
    unfolding W1_def by code_simp
  have v2: "serverVersion (server W2) = Suc (serverVersion (server typedWorld))"
    unfolding W2_def by code_simp
  have v3: "serverVersion (server W3) = Suc (serverVersion (server typedWorld))"
    unfolding W3_def by code_simp
  have u1: "update textMessage = UpdateTextCellValue ''ABC'' ''123'' ''foo''"
    by (simp add: textMessage_def)
  have u2: "update fiveMessage = UpdateNumberCellValue ''ABC'' ''456'' (Some 5)"
    by (simp add: fiveMessage_def)
  have u3: "update nanMessage = UpdateNumberCellValue ''ABC'' ''456'' None"
    by (simp add: nanMessage_def)
  have n5: "\<not> isNaN integerRuntime
                (parseFloatString integerRuntime (numberToString integerRuntime (Some 5)))"
    "parseFloatString integerRuntime (numberToString integerRuntime (Some 5)) = Some 5"
    by code_simp+
  have nn: "isNaN integerRuntime
                (parseFloatString integerRuntime (numberToString integerRuntime None))"
    by code_simp
  from accepted_cell_value_is_stored_as_supplied
         [OF p1 v1, of "''ABC''" "''123''" "''foo''" None]
       u1
  have t1: "Map_get (columns (serverTable (server W1))) ''123'' = Some Text
     \<and> cellAt (serverTable (server W1)) ''ABC'' ''123'' = Some (Str ''foo'')
     \<and> coerce integerRuntime Text (cellAt (serverTable (server W1)) ''ABC'' ''123'')
         = Some (Str (QuoteJSONString ''foo''))
     \<and> \<not> canonicalAt integerRuntime (serverTable (server W1)) ''ABC'' ''123''"
    by blast
  from accepted_cell_value_is_stored_as_supplied
         [OF p2 v2, of "''ABC''" "''456''" "''foo''" "Some 5"]
       u2 n5
  have t2: "Map_get (columns (serverTable (server W2))) ''456'' = Some Number
     \<and> cellAt (serverTable (server W2)) ''ABC'' ''456'' = Some (Num (Some 5))
     \<and> canonicalAt integerRuntime (serverTable (server W2)) ''ABC'' ''456''"
    by blast
  from accepted_cell_value_is_stored_as_supplied
         [OF p3 v3, of "''ABC''" "''456''" "''foo''" None]
       u3 nn
  have t3: "cellAt (serverTable (server W3)) ''ABC'' ''456'' = Some (Num None)
     \<and> \<not> canonicalAt integerRuntime (serverTable (server W3)) ''ABC'' ''456''"
    by blast
  from t1 t2 t3 e1 e2 e3 v1 v2 v3 show ?thesis
    unfolding W1_def W2_def W3_def by blast
qed

section \<open>The shift context that the coordinator accumulates\<close>

text \<open>
  The versions whose updates the specification folds into the context: from
  \<open>message.version + 1\<close> to the current version; and the transformation of a message
  against the context folded over them.
\<close>

definition claimedRange :: "'n Server \<Rightarrow> 'n Message \<Rightarrow> Version list" where
  "claimedRange srv message = [Suc (version message) ..< Suc (serverVersion srv)]"

definition claimedTransform :: "'n Server \<Rightarrow> 'n Message \<Rightarrow> error + 'n Message" where
  "claimedTransform srv message =
     (case accumulate (history srv) (claimedRange srv message) newShiftContext of
        Inl e \<Rightarrow> Inl e
      | Inr shiftContext \<Rightarrow>
          Inr (message\<lparr>update := transformUpdate shiftContext (update message)\<rparr>))"

text \<open>
  No update object of the eight classes answers \<open>true\<close> to \<open>needsTransform()\<close>: the method
  of the abstract class returns \<open>false\<close> and \<open>MoveRow\<close>, which carries the target index and
  overrides \<open>transform\<close> and \<open>shift\<close>, does not override it. So \<open>process\<close> never enters
  the branch.
\<close>

lemma needsTransform_never: "\<not> needsTransform u"
  by (simp add: needsTransform_def)










text \<open>
  The body of the branch, which no run reaches, would not fold the claimed versions
  either: its loop starts at \<open>message.version\<close>. One client creates the rows \<open>A\<close>, \<open>B\<close>,
  \<open>C\<close> and destroys \<open>A\<close>, so that the server and the client are at version \<open>4\<close> and
  \<open>history[4]\<close> is the \<open>DestroyRow\<close> with the index \<open>0\<close>; \<open>moveMessage\<close> is the message
  that \<open>moveRow(B, 1)\<close> of that client then builds. The body folds \<open>history[4]\<close>, which the
  sender had seen, and rewrites the target \<open>1\<close> to \<open>0\<close>; on a message written against
  version \<open>0\<close> it reads \<open>history[0]\<close>, which is \<open>undefined\<close>, and throws.
\<close>

definition destroyedWorld :: "int option world" where
  "destroyedWorld =
     run integerRuntime
       [NewClient True, CreateRowCall 0 ''A'', CreateRowCall 0 ''B'', CreateRowCall 0 ''C'',
        DestroyRowCall 0 ''A'']
       (newWorld 0)"

definition moveMessage :: "int option Message" where
  "moveMessage = \<lparr>version = 4, groupID = 8, update = MoveRow ''B'' 1 (-1), UUID = 9\<rparr>"

lemma transformMessage_starts_at_message_version:
  "serverVersion (server destroyedWorld) = 4
   \<and> clientVersion (getClient destroyedWorld 0) = 4
   \<and> map_option update (history (server destroyedWorld) 4) = Some (DestroyRow ''A'' 0)
   \<and> outbox (getClient (run integerRuntime [GoOffline 0, MoveRowCall 0 ''B'' 1] destroyedWorld) 0)
       = [moveMessage]
   \<and> claimedRange (server destroyedWorld) moveMessage = []
   \<and> accumulate (history (server destroyedWorld)) [version moveMessage ..< Suc 4] newShiftContext
       = Inr [ShiftRecord Delete 0]
   \<and> map_sum id update (transformMessage (server destroyedWorld) moveMessage)
       = Inr (MoveRow ''B'' 0 (-1))
   \<and> map_sum id update (claimedTransform (server destroyedWorld) moveMessage)
       = Inr (MoveRow ''B'' 1 (-1))
   \<and> transformMessage (newServer 0 :: int option Server)
         \<lparr>version = 0, groupID = 0, update = MoveRow ''A'' 0 (-1), UUID = 1\<rparr>
       = Inl TypeError"
  by code_simp

section \<open>Rejection\<close>

text \<open>
  The client of \<open>twoRowWorld\<close> goes offline and asks for a row \<open>A\<close>, which exists, and a
  row \<open>C\<close>.
\<close>

definition offlineWorld :: "int option world" where
  "offlineWorld =
     run integerRuntime [GoOffline 0, CreateRowCall 0 ''A'', CreateRowCall 0 ''C''] twoRowWorld"

text \<open>\<open>reject\<close> returns normally only when no client is connected.\<close>

lemma reject_throws:
  "reject messageID gid w = ((if clients (server w) = [] then None else Some TypeError), w)"
  by (simp add: reject_def split: list.splits)

text \<open>
  C7. When the coordinator rejects a message, every connected client should be told
  (\<open>rejected(messageID, groupID)\<close>) with no change of its state and with no failure. In the
  code the notification throws: the online client of \<open>twoRowWorld\<close> asks for a second row
  \<open>A\<close>; \<open>apply\<close> returns \<open>false\<close>, the group is recorded as failed, and \<open>createRow\<close> ends
  with a \<open>TypeError\<close>, the table and the clients being as before. When the same request
  waits in the outbox of the offline client, \<open>comeOnline\<close> ends with the \<open>TypeError\<close>: the
  client stays offline with both messages in its outbox, while the server counts it as
  connected.
\<close>

theorem rejection_throws_TypeError:
  "clients (server twoRowWorld) = [0]
   \<and> fst (step integerRuntime (CreateRowCall 0 ''A'') twoRowWorld) = Some TypeError
   \<and> failed (server (snd (step integerRuntime (CreateRowCall 0 ''A'') twoRowWorld))) = {4}
   \<and> serverTable (server (snd (step integerRuntime (CreateRowCall 0 ''A'') twoRowWorld)))
       = twoRowTable
   \<and> clientObjects (snd (step integerRuntime (CreateRowCall 0 ''A'') twoRowWorld))
       = clientObjects twoRowWorld
   \<and> length (outbox (getClient offlineWorld 0)) = 2
   \<and> fst (step integerRuntime (ComeOnline 0) offlineWorld) = Some TypeError
   \<and> \<not> online (getClient (snd (step integerRuntime (ComeOnline 0) offlineWorld)) 0)
   \<and> length (outbox (getClient (snd (step integerRuntime (ComeOnline 0) offlineWorld)) 0)) = 2
   \<and> clients (server (snd (step integerRuntime (ComeOnline 0) offlineWorld))) = [0]"
  by code_simp

section \<open>The serialized table\<close>

text \<open>
  One client creates the row \<open>r\<close> and the text column \<open>__proto__\<close> and sets the cell to \<open>x\<close>.
\<close>

definition protoWorld :: "int option world" where
  "protoWorld =
     run integerRuntime
       [NewClient True, CreateRowCall 0 ''r'', CreateColumnCall 0 ''__proto__'' Text,
        UpdateTextCellValueCall 0 ''r'' ''__proto__'' ''x'']
       (newWorld 0)"

text \<open>
  C9. The serialization should list, for every row, exactly the cells assigned to it. The
  coordinator accepts the three edits of \<open>protoWorld\<close>, and the row \<open>r\<close> holds the cell
  \<open>x\<close> under the column \<open>__proto__\<close>; the column is listed, but the body of the row is
  serialized as the empty object, on the server and on the client alike.
\<close>

theorem serialize_drops_proto_cell:
  "serverVersion (server protoWorld) = 3
   \<and> cells (serverTable (server protoWorld)) = [(''r'', [(''__proto__'', Str ''x'')])]
   \<and> objectJSON (serverTable (server protoWorld))
       = Inr (JObject
                [(''columns'', JArray [ColumnOutput ''__proto__'' ''text'']),
                 (''rows'', JArray [RowOutput ''r'' (JObject [])])])
   \<and> fst (getData integerRuntime 0 protoWorld) = serverGetData integerRuntime protoWorld
   \<and> serverGetData integerRuntime protoWorld
       = Inr (JSON_stringify integerRuntime
                (JObject
                  [(''columns'', JArray [ColumnOutput ''__proto__'' ''text'']),
                   (''rows'', JArray [RowOutput ''r'' (JObject [])])]))"
  by code_simp

text \<open>
  What the serialization is otherwise, for a table in which every element of \<open>order\<close> is
  a row with its map of cells: the columns in the order of the map \<open>columns\<close>, with the
  type as \<open>text\<close> or \<open>number\<close>; the rows in the order of \<open>order\<close>; and for a row whose
  cells have distinct column IDs, a body that maps every column ID other than \<open>__proto__\<close>
  to the cell assigned under it, and no other key. An empty body is written \<open>{}\<close>.
\<close>

lemma typeToString_cases: "typeToString ty = ''text'' \<or> typeToString ty = ''number''"
  by (cases ty) (simp_all add: typeToString_def)

lemma serializeRows_defined:
  assumes "\<forall>x \<in> set ord. \<exists>r cols. x = Some r \<and> Map_get (cells T) r = Some cols"
  shows "serializeRows T ord =
           Inr (map (\<lambda>x. RowOutput (the x)
                            (cellValuesByColumnId (the (Map_get (cells T) (the x))))) ord)"
  using assms
proof (induction ord)
  case Nil
  show ?case by simp
next
  case (Cons x ord)
  then obtain r cols where "x = Some r" "Map_get (cells T) r = Some cols" by auto
  with Cons show ?case by (simp add: serializeRow_def)
qed

lemma objectJSON_shape:
  assumes "\<forall>x \<in> set (order T). \<exists>r cols. x = Some r \<and> Map_get (cells T) r = Some cols"
  shows "objectJSON T =
     Inr (JObject
       [(''columns'',
         JArray (map (\<lambda>(columnID, ty). ColumnOutput columnID (typeToString ty)) (columns T))),
        (''rows'',
         JArray (map (\<lambda>x. RowOutput (the x)
                              (cellValuesByColumnId (the (Map_get (cells T) (the x)))))
                   (order T)))])"
  by (simp add: objectJSON_def serializeRows_defined [OF assms] serializeColumns_def)

lemma map_of_assignProperty:
  "map_of (assignProperty k v obj) =
     (if k = ''__proto__'' then map_of obj else (map_of obj)(k \<mapsto> v))"
  by (simp add: assignProperty_def Map_set_def update_conv')

lemma map_of_fold_assignProperty:
  "map_of (fold (\<lambda>(k, v) obj. assignProperty k v obj) sources obj) k' =
     (if k' = ''__proto__'' then map_of obj k' else (map_of obj ++ map_of (rev sources)) k')"
proof (induction sources arbitrary: obj)
  case Nil
  show ?case by simp
next
  case (Cons kv sources)
  obtain k v where kv: "kv = (k, v)" by (cases kv)
  show ?case
    by (simp add: kv Cons.IH map_of_assignProperty map_add_def split: option.splits)
qed

lemma distinct_fold_assignProperty:
  "distinct (map fst obj) \<Longrightarrow>
   distinct (map fst (fold (\<lambda>(k, v) obj. assignProperty k v obj) sources obj))"
proof (induction sources arbitrary: obj)
  case Nil
  then show ?case by simp
next
  case (Cons kv sources)
  obtain k v where kv: "kv = (k, v)" by (cases kv)
  have "distinct (map fst (assignProperty k v obj))"
    using Cons.prems by (simp add: assignProperty_def Map_set_def distinct_update)
  from Cons.IH [OF this] show ?case by (simp add: kv)
qed

lemma set_propertyOrder: "set (propertyOrder props) = set props"
  by (auto simp: propertyOrder_def)

lemma distinct_propertyOrder:
  assumes "distinct (map fst props)"
  shows "distinct (map fst (propertyOrder props))"
proof -
  from assms have d: "distinct props" and i: "inj_on fst (set props)"
    by (simp_all add: distinct_map)
  have "distinct (propertyOrder props)"
    using d by (auto simp: propertyOrder_def)
  moreover have "inj_on fst (set (propertyOrder props))"
    using i by (simp add: set_propertyOrder)
  ultimately show ?thesis by (simp add: distinct_map)
qed

lemma map_of_propertyOrder:
  assumes "distinct (map fst props)"
  shows "map_of (propertyOrder props) = map_of props"
  using assms distinct_propertyOrder [OF assms] set_propertyOrder [of props]
  by (simp add: map_of_inject_set)

lemma Object_assign_lookup:
  assumes "distinct (map fst sources)"
  shows "map_of (Object_assign sources) k =
           (if k = ''__proto__'' then None else map_of sources k)"
    and "distinct (map fst (Object_assign sources))"
proof -
  let ?obj = "fold (\<lambda>(k, v) obj. assignProperty k v obj) sources []"
  have d: "distinct (map fst ?obj)"
    by (rule distinct_fold_assignProperty) simp
  have r: "map_of (rev sources) = map_of sources"
    using assms by (simp add: map_of_inject_set rev_map [symmetric])
  show "map_of (Object_assign sources) k =
           (if k = ''__proto__'' then None else map_of sources k)"
    by (simp add: Object_assign_def map_of_propertyOrder [OF d] map_of_fold_assignProperty r)
  show "distinct (map fst (Object_assign sources))"
    unfolding Object_assign_def by (rule distinct_propertyOrder [OF d])
qed

lemma cellValuesByColumnId_lookup:
  assumes "distinct (map fst column)"
  shows "\<exists>props. cellValuesByColumnId column = JObject props
           \<and> distinct (map fst props)
           \<and> (\<forall>columnID. map_of props columnID =
                 (if columnID = ''__proto__'' then None
                  else map_option cellJSON (map_of column columnID)))"
proof -
  let ?sources = "map (\<lambda>(columnID, cell). (columnID, cellJSON cell)) column"
  have f: "map fst ?sources = map fst column" by (induction column) auto
  have d: "distinct (map fst ?sources)" unfolding f by (rule assms)
  have m: "map_of ?sources columnID = map_option cellJSON (map_of column columnID)" for columnID
    by (induction column) auto
  show ?thesis
    unfolding cellValuesByColumnId_def
    using Object_assign_lookup [OF d] by (simp add: m)
qed

lemma empty_row_body: "JSON_stringify rt (cellValuesByColumnId []) = ''{}''"
  by (simp add: cellValuesByColumnId_def Object_assign_def propertyOrder_def)

subsection \<open>The shape of the coordinator's serialization\<close>

text \<open>
  Every table that the coordinator reaches keeps its row index in step with the order,
  lists no row twice, has a cell map for every row of the order, and stores no column ID
  twice in a cell map. Its serialization is therefore always defined and consists of the
  column array and the row array; the object of a row holds exactly the cells of the row,
  apart from a cell under the column ID \<open>__proto__\<close>.
\<close>

definition tableOK :: "'n Table \<Rightarrow> bool" where
  "tableOK T \<longleftrightarrow>
     rows T = rowMap (order T)
     \<and> distinct (order T)
     \<and> (\<forall>x \<in> set (order T). \<exists>r cols. x = Some r \<and> Map_get (cells T) r = Some cols)
     \<and> (\<forall>(r, cols) \<in> set (cells T). distinct (map fst cols))"

lemma fst_set_fold_Map_set:
  "fst ` set (fold (\<lambda>(k, v) m. Map_set k v m) kvs al) = fst ` set kvs \<union> fst ` set al"
proof (induction kvs arbitrary: al)
  case Nil
  show ?case by simp
next
  case (Cons kv kvs)
  obtain k v where kv: "kv = (k, v)" by (cases kv)
  have "fst ` set (Map_set k v al) = insert k (fst ` set al)"
    by (simp add: Map_set_def dom_update)
  with Cons.IH [of "Map_set k v al"] show ?case
    by (simp add: kv)
qed

lemma rowMap_has: "Map_has (rowMap ord) k \<longleftrightarrow> k \<in> set ord"
proof -
  have "Map_has (rowMap ord) k \<longleftrightarrow> k \<in> fst ` set (rowMap ord)"
    by (simp add: Map_has_def map_of_eq_None_iff)
  also have "fst ` set (rowMap ord) = set ord"
    unfolding rowMap_def fst_set_fold_Map_set
    by (metis (no_types) empty_set image_empty length_map length_upt map_fst_zip
        minus_nat.diff_0 set_map sup_bot.right_neutral)
  finally show ?thesis .
qed

lemma set_Map_set: "set (Map_set k v m) \<subseteq> insert (k, v) (set m)"
  unfolding Map_set_def by (induction m) auto

lemma set_Map_delete: "set (Map_delete k m) \<subseteq> set m"
  by (auto simp: Map_delete_def AList.delete_eq)

lemma Map_get_Map_set: "Map_get (Map_set k v m) k' = (if k' = k then Some v else Map_get m k')"
  by (simp add: Map_get_def Map_set_def update_conv')

lemma Map_get_Map_delete: "Map_get (Map_delete k m) k' = (if k' = k then None else Map_get m k')"
  by (simp add: Map_get_def Map_delete_def delete_conv')

lemma Map_get_map_values:
  "Map_get (map (\<lambda>(k, v). (k, f v)) m) k = map_option f (Map_get m k)"
  by (simp add: Map_get_def map_of_map)

lemma Map_get_in_set: "Map_get m k = Some v \<Longrightarrow> (k, v) \<in> set m"
  by (simp add: Map_get_def map_of_SomeD)

lemma distinct_remove_nth:
  assumes "distinct xs" and "i < length xs"
  shows "distinct (take i xs @ drop (Suc i) xs)"
    and "set (take i xs @ drop (Suc i) xs) = set xs - {xs ! i}"
proof -
  have xs: "xs = take i xs @ xs ! i # drop (Suc i) xs"
    using assms(2) by (simp add: id_take_nth_drop)
  with assms(1) have d: "distinct (take i xs @ xs ! i # drop (Suc i) xs)" by simp
  then show "distinct (take i xs @ drop (Suc i) xs)" by auto
  from d have "xs ! i \<notin> set (take i xs @ drop (Suc i) xs)" by auto
  moreover have "set xs = insert (xs ! i) (set (take i xs @ drop (Suc i) xs))"
    by (subst xs) auto
  ultimately show "set (take i xs @ drop (Suc i) xs) = set xs - {xs ! i}" by auto
qed

lemma distinct_insert_at:
  assumes "distinct ys" and "x \<notin> set ys"
  shows "distinct (take p ys @ [x] @ drop p ys)"
    and "set (take p ys @ [x] @ drop p ys) = insert x (set ys)"
proof -
  have disj: "set (take p ys) \<inter> set (drop p ys) = {}"
    using assms(1) by (simp add: set_take_disj_set_drop_if_distinct)
  have sub: "set (take p ys) \<subseteq> set ys" "set (drop p ys) \<subseteq> set ys"
    by (simp_all add: set_take_subset set_drop_subset)
  show "distinct (take p ys @ [x] @ drop p ys)"
    using assms disj sub by (auto simp: distinct_take distinct_drop)
  have "set ys = set (take p ys) \<union> set (drop p ys)"
    by (metis append_take_drop_id set_append)
  then show "set (take p ys @ [x] @ drop p ys) = insert x (set ys)" by auto
qed

lemma tableOK_I:
  assumes "rows T = rowMap (order T)" and "distinct (order T)"
    and "\<And>x. x \<in> set (order T) \<Longrightarrow> \<exists>r cols. x = Some r \<and> Map_get (cells T) r = Some cols"
    and "\<And>r cols. (r, cols) \<in> set (cells T) \<Longrightarrow> distinct (map fst cols)"
  shows "tableOK T"
  using assms unfolding tableOK_def by blast

lemma tableOK_CreateRow:
  assumes ok: "tableOK T" and a: "CreateRow_apply rowID T = Inr (b, u', T')"
  shows "tableOK T'"
proof (cases "Map_has (rows T) (Some rowID)")
  case True
  with a ok show ?thesis by (simp add: CreateRow_apply_def)
next
  case False
  with ok have new: "Some rowID \<notin> set (order T)"
    by (simp add: tableOK_def rowMap_has)
  have T': "T' = computeRowMap (T\<lparr>cells := Map_set rowID [] (cells T),
                                     order := order T @ [Some rowID]\<rparr>)"
    using a False by (simp add: CreateRow_apply_def Let_def)
  show ?thesis
  proof (rule tableOK_I)
    show "rows T' = rowMap (order T')" by (simp add: T' computeRowMap_def)
    show "distinct (order T')" using ok new by (simp add: T' computeRowMap_def tableOK_def)
    show "\<exists>r cols. x = Some r \<and> Map_get (cells T') r = Some cols" if "x \<in> set (order T')" for x
    proof -
      from that consider "x = Some rowID" | "x \<in> set (order T)"
        by (auto simp: T' computeRowMap_def)
      then show ?thesis
      proof cases
        case 1
        then show ?thesis by (simp add: T' computeRowMap_def Map_get_Map_set)
      next
        case 2
        with ok obtain r cols where "x = Some r" "Map_get (cells T) r = Some cols"
          unfolding tableOK_def by blast
        then show ?thesis
          by (cases "r = rowID") (simp_all add: T' computeRowMap_def Map_get_Map_set)
      qed
    qed
    show "distinct (map fst cols)" if "(r, cols) \<in> set (cells T')" for r cols
    proof -
      from that have "(r, cols) \<in> insert (rowID, []) (set (cells T))"
        using set_Map_set [of rowID "[]" "cells T"] by (auto simp: T' computeRowMap_def)
      with ok show ?thesis unfolding tableOK_def by auto
    qed
  qed
qed

lemma tableOK_DestroyRow:
  assumes ok: "tableOK T" and a: "DestroyRow_apply rowID index T = Inr (b, u', T')"
  shows "tableOK T'"
proof (cases "Map_get (rows T) (Some rowID)")
  case None
  with a ok show ?thesis by (simp add: DestroyRow_apply_def)
next
  case (Some s)
  with ok have "Map_get (rowMap (order T)) (Some rowID) = Some s" by (simp add: tableOK_def)
  from rowMap_get [OF this]
  have s: "0 \<le> s" "nat s < length (order T)" "order T ! nat s = Some rowID" by simp_all
  from ok have d: "distinct (order T)" by (simp add: tableOK_def)
  have T': "T' = computeRowMap (T\<lparr>cells := Map_delete rowID (cells T),
               order := take (nat s) (order T) @ drop (Suc (nat s)) (order T)\<rparr>)"
    using a Some splice_remove_one [OF s(1,2)] by (auto simp: DestroyRow_apply_def Let_def)
  show ?thesis
  proof (rule tableOK_I)
    show "rows T' = rowMap (order T')" by (simp add: T' computeRowMap_def)
    show "distinct (order T')"
      using distinct_remove_nth(1) [OF d s(2)] by (simp add: T' computeRowMap_def)
    show "\<exists>r cols. x = Some r \<and> Map_get (cells T') r = Some cols" if "x \<in> set (order T')" for x
    proof -
      from that have "x \<in> set (take (nat s) (order T)) \<union> set (drop (Suc (nat s)) (order T))"
        by (simp add: T' computeRowMap_def)
      moreover have "set (take (nat s) (order T)) \<union> set (drop (Suc (nat s)) (order T))
          = set (order T) - {Some rowID}"
        using distinct_remove_nth(2) [OF d s(2)] s(3) by simp
      ultimately have "x \<in> set (order T) - {Some rowID}"
        by (rule back_subst [where P = "\<lambda>S. x \<in> S"])
      then have x: "x \<in> set (order T)" "x \<noteq> Some rowID" by simp_all
      from x(1) ok obtain r cols where rc: "x = Some r" "Map_get (cells T) r = Some cols"
        unfolding tableOK_def by blast
      with x(2) have "r \<noteq> rowID" by simp
      with rc show ?thesis by (simp add: T' computeRowMap_def Map_get_Map_delete)
    qed
    show "distinct (map fst cols)" if "(r, cols) \<in> set (cells T')" for r cols
    proof -
      from that have "(r, cols) \<in> set (cells T)"
        using set_Map_delete [of rowID "cells T"] by (auto simp: T' computeRowMap_def)
      with ok show ?thesis unfolding tableOK_def by auto
    qed
  qed
qed

lemma tableOK_MoveRow:
  assumes ok: "tableOK T" and a: "MoveRow_apply rowID targetIndex start T = Inr (b, u', T')"
  shows "tableOK T'"
proof (cases "Map_get (rows T) (Some rowID)")
  case None
  with a ok show ?thesis by (simp add: MoveRow_apply_def)
next
  case (Some s)
  define rest where "rest = take (nat s) (order T) @ drop (Suc (nat s)) (order T)"
  define pos where "pos = spliceStart targetIndex (length rest)"
  from Some ok have "Map_get (rowMap (order T)) (Some rowID) = Some s" by (simp add: tableOK_def)
  from rowMap_get [OF this]
  have s: "0 \<le> s" "nat s < length (order T)" "order T ! nat s = Some rowID" by simp_all
  from ok have d: "distinct (order T)" by (simp add: tableOK_def)
  have r: "splice s 1 [] (order T) = ([Some rowID], rest)"
    using splice_remove_one [OF s(1,2)] s(3) by (simp add: rest_def)
  have "MoveRow_apply rowID targetIndex start T =
          Inr (True, MoveRow rowID targetIndex s,
               computeRowMap (T\<lparr>order := snd (splice targetIndex 0 [Some rowID] rest)\<rparr>))"
    by (simp only: MoveRow_apply_def Some option.simps r Let_def fst_conv snd_conv list.simps)
  with a have T': "T' = computeRowMap (T\<lparr>order := take pos rest @ [Some rowID] @ drop pos rest\<rparr>)"
    by (simp add: splice_insert pos_def)
  have dr: "distinct rest" and sr: "set rest = set (order T) - {Some rowID}"
    using distinct_remove_nth [OF d s(2)] s(3) by (simp_all add: rest_def)
  then have nr: "Some rowID \<notin> set rest" by simp
  have "Some rowID \<in> set (order T)"
    using s(2,3) nth_mem by fastforce
  then have "insert (Some rowID) (set rest) = set (order T)"
    using sr by blast
  then have so: "set (order T') = set (order T)"
    using distinct_insert_at(2) [OF dr nr, of pos] by (simp add: T' computeRowMap_def)
  show ?thesis
  proof (rule tableOK_I)
    show "rows T' = rowMap (order T')" by (simp add: T' computeRowMap_def)
    show "distinct (order T')"
      using distinct_insert_at(1) [OF dr nr, of pos] by (simp add: T' computeRowMap_def)
    show "\<exists>r cols. x = Some r \<and> Map_get (cells T') r = Some cols" if "x \<in> set (order T')" for x
    proof -
      from that so have "x \<in> set (order T)" by simp
      with ok obtain r cols where "x = Some r" "Map_get (cells T) r = Some cols"
        unfolding tableOK_def by blast
      then show ?thesis by (simp add: T' computeRowMap_def)
    qed
    show "distinct (map fst cols)" if "(r, cols) \<in> set (cells T')" for r cols
    proof -
      from that have "(r, cols) \<in> set (cells T)" by (simp add: T' computeRowMap_def)
      with ok show ?thesis unfolding tableOK_def by auto
    qed
  qed
qed


lemma distinct_Map_set: "distinct (map fst m) \<Longrightarrow> distinct (map fst (Map_set k v m))"
  by (simp add: Map_set_def distinct_update)

lemma distinct_Map_delete: "distinct (map fst m) \<Longrightarrow> distinct (map fst (Map_delete k m))"
  by (simp add: Map_delete_def distinct_delete)

lemma distinct_coerceRow:
  "distinct (map fst cols) \<Longrightarrow> distinct (map fst (coerceRow rt columnID columnType cols))"
  by (simp add: coerceRow_def distinct_Map_set split: option.splits)

lemma tableOK_map_cells:
  assumes ok: "tableOK T"
    and f: "\<And>cols. distinct (map fst cols) \<Longrightarrow> distinct (map fst (f cols))"
    and T': "cells T' = map (\<lambda>(rowID, cols). (rowID, f cols)) (cells T)"
            "rows T' = rows T" "order T' = order T"
  shows "tableOK T'"
proof (rule tableOK_I)
  from ok show "rows T' = rowMap (order T')" by (simp add: T' tableOK_def)
  from ok show "distinct (order T')" by (simp add: T' tableOK_def)
  show "\<exists>r cols. x = Some r \<and> Map_get (cells T') r = Some cols" if "x \<in> set (order T')" for x
  proof -
    from that ok obtain r cols where "x = Some r" "Map_get (cells T) r = Some cols"
      unfolding tableOK_def T' by blast
    then show ?thesis by (simp add: T' Map_get_map_values)
  qed
  show "distinct (map fst cols)" if "(r, cols) \<in> set (cells T')" for r cols
  proof -
    from that obtain cols0 where "(r, cols0) \<in> set (cells T)" "cols = f cols0"
      by (auto simp: T')
    with ok f show ?thesis unfolding tableOK_def by auto
  qed
qed

lemma tableOK_columns: "tableOK (T\<lparr>columns := c\<rparr>) = tableOK T"
  by (simp add: tableOK_def)

lemma tableOK_CreateColumn:
  assumes "tableOK T" and "CreateColumn_apply columnID columnType T = Inr (b, u', T')"
  shows "tableOK T'"
  using assms by (auto simp: CreateColumn_apply_def tableOK_columns split: if_splits)

lemma tableOK_DestroyColumn:
  assumes ok: "tableOK T" and a: "DestroyColumn_apply columnID T = Inr (b, u', T')"
  shows "tableOK T'"
proof (cases "Map_has (columns T) columnID")
  case False
  with a ok show ?thesis by (simp add: DestroyColumn_apply_def)
next
  case True
  with a have T': "T' = T\<lparr>columns := Map_delete columnID (columns T),
                          cells := map (\<lambda>(rowID, cols). (rowID, Map_delete columnID cols)) (cells T)\<rparr>"
    by (simp add: DestroyColumn_apply_def Let_def)
  show ?thesis
    by (rule tableOK_map_cells [OF ok, where f = "Map_delete columnID"])
       (simp_all add: T' distinct_Map_delete)
qed

lemma tableOK_UpdateColumnType:
  assumes ok: "tableOK T" and a: "UpdateColumnType_apply rt columnID columnType T = Inr (b, u', T')"
  shows "tableOK T'"
proof (cases "Map_has (columns T) columnID \<and> canCoerce rt columnID columnType T")
  case False
  with a ok show ?thesis by (auto simp: UpdateColumnType_apply_def split: if_splits)
next
  case True
  with a have T': "T' = T\<lparr>cells := map (\<lambda>(rowID, cols). (rowID, coerceRow rt columnID columnType cols))
                                      (cells T)\<rparr>"
    by (simp add: UpdateColumnType_apply_def)
  show ?thesis
    by (rule tableOK_map_cells [OF ok, where f = "coerceRow rt columnID columnType"])
       (simp_all add: T' distinct_coerceRow)
qed

lemma tableOK_setCell:
  assumes ok: "tableOK T" and a: "setCell u required rowID columnID cellValue T = Inr (b, u', T')"
  shows "tableOK T'"
proof (cases "T' = T")
  case True
  with ok show ?thesis by simp
next
  case False
  with a obtain rowColumns where rc: "Map_get (cells T) rowID = Some rowColumns"
    and T': "T' = T\<lparr>cells := Map_set rowID (Map_set columnID cellValue rowColumns) (cells T)\<rparr>"
    by (auto simp: setCell_def split: option.splits if_splits)
  from ok Map_get_in_set [OF rc] have drc: "distinct (map fst rowColumns)"
    unfolding tableOK_def by auto
  show ?thesis
  proof (rule tableOK_I)
    from ok show "rows T' = rowMap (order T')" by (simp add: T' tableOK_def)
    from ok show "distinct (order T')" by (simp add: T' tableOK_def)
    show "\<exists>r cols. x = Some r \<and> Map_get (cells T') r = Some cols" if "x \<in> set (order T')" for x
    proof -
      from that ok obtain r cols where "x = Some r" "Map_get (cells T) r = Some cols"
        unfolding tableOK_def T' by auto
      then show ?thesis by (cases "r = rowID") (simp_all add: T' Map_get_Map_set)
    qed
    show "distinct (map fst cols)" if "(r, cols) \<in> set (cells T')" for r cols
    proof -
      from that have "(r, cols) \<in> insert (rowID, Map_set columnID cellValue rowColumns) (set (cells T))"
        using set_Map_set [of rowID "Map_set columnID cellValue rowColumns" "cells T"]
        by (auto simp: T')
      with ok distinct_Map_set [OF drc, of columnID cellValue] show ?thesis
        unfolding tableOK_def by auto
    qed
  qed
qed

lemma tableOK_applyUpdate:
  assumes "tableOK T" and "applyUpdate rt u T = Inr (b, u', T')"
  shows "tableOK T'"
proof (cases u)
  case (CreateRow rowID)
  with assms show ?thesis by (simp add: tableOK_CreateRow)
next
  case (DestroyRow rowID index)
  with assms show ?thesis by (simp add: tableOK_DestroyRow)
next
  case (MoveRow rowID targetIndex start)
  with assms show ?thesis by (simp add: tableOK_MoveRow)
next
  case (CreateColumn columnID columnType)
  with assms show ?thesis by (simp add: tableOK_CreateColumn)
next
  case (DestroyColumn columnID)
  with assms show ?thesis by (simp add: tableOK_DestroyColumn)
next
  case (UpdateColumnType columnID columnType)
  with assms show ?thesis by (simp add: tableOK_UpdateColumnType)
next
  case (UpdateTextCellValue rowID columnID val)
  with assms show ?thesis by (simp add: UpdateTextCellValue_apply_def tableOK_setCell)
next
  case (UpdateNumberCellValue rowID columnID val)
  with assms show ?thesis by (simp add: UpdateNumberCellValue_apply_def tableOK_setCell)
qed

lemma closedUnderApply_tableOK: "closedUnderApply rt tableOK"
  unfolding closedUnderApply_def by (blast intro: tableOK_applyUpdate)

lemma coordinator_table_ok: "tableOK (serverTable (server (run rt calls (newWorld d))))"
  by (rule serverTable_run [OF closedUnderApply_tableOK])
     (simp add: newWorld_def newServer_def newTable_def rowMap_def tableOK_def)

lemma coordinator_serialization_shape:
  fixes rt :: "'n runtime" and calls :: "'n call list" and d :: nat
  defines "T \<equiv> serverTable (server (run rt calls (newWorld d)))"
  shows "objectJSON T =
     Inr (JObject
       [(''columns'',
         JArray (map (\<lambda>(columnID, ty). ColumnOutput columnID (typeToString ty)) (columns T))),
        (''rows'',
         JArray (map (\<lambda>x. RowOutput (the x)
                              (cellValuesByColumnId (the (Map_get (cells T) (the x)))))
                   (order T)))])"
    and "x \<in> set (order T) \<Longrightarrow>
         \<exists>r cols props. x = Some r \<and> Map_get (cells T) r = Some cols
           \<and> cellValuesByColumnId cols = JObject props
           \<and> distinct (map fst props)
           \<and> (\<forall>columnID. map_of props columnID =
                 (if columnID = ''__proto__'' then None
                  else map_option cellJSON (Map_get cols columnID)))"
proof -
  have ok: "tableOK T" unfolding T_def by (rule coordinator_table_ok)
  then have r: "\<forall>x \<in> set (order T). \<exists>r cols. x = Some r \<and> Map_get (cells T) r = Some cols"
    unfolding tableOK_def by blast
  show "objectJSON T =
     Inr (JObject
       [(''columns'',
         JArray (map (\<lambda>(columnID, ty). ColumnOutput columnID (typeToString ty)) (columns T))),
        (''rows'',
         JArray (map (\<lambda>x. RowOutput (the x)
                              (cellValuesByColumnId (the (Map_get (cells T) (the x)))))
                   (order T)))])"
    by (rule objectJSON_shape [OF r])
  assume "x \<in> set (order T)"
  with r obtain r cols where rc: "x = Some r" "Map_get (cells T) r = Some cols" by blast
  from ok Map_get_in_set [OF rc(2)] have "distinct (map fst cols)"
    unfolding tableOK_def by auto
  from cellValuesByColumnId_lookup [OF this] rc show
    "\<exists>r cols props. x = Some r \<and> Map_get (cells T) r = Some cols
           \<and> cellValuesByColumnId cols = JObject props
           \<and> distinct (map fst props)
           \<and> (\<forall>columnID. map_of props columnID =
                 (if columnID = ''__proto__'' then None
                  else map_option cellJSON (Map_get cols columnID)))"
    by (auto simp: Map_get_def)
qed

end
